theory Spec2Isabelle
  imports Complex_Main
begin

section \<open>Eleveld target-controlled infusion protocol (src/eleveldProtocol.ts)\<close>

text \<open>
  A shallow embedding of \<^verbatim>\<open>src/eleveldProtocol.ts\<close>.

  Numbers. The TypeScript \<^verbatim>\<open>number\<close> type is modelled by \<^typ>\<open>real\<close>:
  every operation is exact, there is no rounding, overflow, underflow or NaN. All
  results below are results about this exact-arithmetic reading of the code.
  Two of them are stated with double precision in mind: the bound on the \<open>time\<close>
  field leaves room for the rounding error of the accumulated clock, and the
  subsection on the cumulative dose in double precision shows an exact run whose
  concentrations leave the range of finite doubles.
  The one place where the code can divide by zero on an input it accepts (the bolus
  rate \<^verbatim>\<open>loadingDoseMg / loadingDurationSec\<close>) is modelled with the outcome
  JavaScript gives there written out, see \<open>bolusExceeds\<close>.
  \<^verbatim>\<open>Math.pow(x, z)\<close> is \<open>x powr z\<close>, which agrees with it for the positive
  bases the code uses on valid covariates; \<^verbatim>\<open>Math.exp\<close> is \<open>exp\<close>;
  \<^verbatim>\<open>Math.round(x)\<close> is \<open>\<lfloor>x + 1/2\<rfloor>\<close> (halves round up).

  Optional fields (\<^verbatim>\<open>intervalSec?\<close>, \<^verbatim>\<open>volumeMl?\<close>, ...) are
  \<open>real option\<close>; \<^verbatim>\<open>x ?? d\<close> is \<open>case x of None \<Rightarrow> d | Some v \<Rightarrow> v\<close>.

  Loops. Both \<^verbatim>\<open>while\<close> loops may run forever (a non-positive interval, or a
  maintenance budget that is never used up), so they are \<open>partial_function (option)\<close>:
  \<open>None\<close> is a run that does not return.
\<close>

subsection \<open>Data model\<close>

datatype Sex = Male | Female

datatype Drug = Propofol | Remifentanil

datatype Phase = Loading | Maintenance | Decay

record DosingStep =
  time :: real
  rate :: real
  ce :: real
  cumulativeDoseMg :: real
  phase :: Phase

record Params =
  drug :: Drug
  concentrationMgPerMl :: real
  ageYears :: real
  sex :: Sex
  weightKg :: real
  heightCm :: real
  targetCe :: real
  intervalSec :: "real option"
  volumeMl :: "real option"
  currentCe :: "real option"
  loadingDoseMg :: "real option"
  loadingDurationSec :: "real option"

text \<open>The object \<^verbatim>\<open>{ vc, v2, v3, k10, k12, k13, k21, k31, ke0, cl1 }\<close> returned by
  \<^verbatim>\<open>eleveldParameters\<close>.\<close>

record PKParams =
  vc :: real
  v2 :: real
  v3 :: real
  k10 :: real
  k12 :: real
  k13 :: real
  k21 :: real
  k31 :: real
  ke0 :: real
  cl1 :: real

subsection \<open>Covariate parameter model\<close>

definition pow :: "real \<Rightarrow> real \<Rightarrow> real" where
  "pow x z = x powr z"

definition fsigmoid :: "real \<Rightarrow> real \<Rightarrow> real \<Rightarrow> real" where
  "fsigmoid x y z = pow x z / (pow x z + pow y z)"

definition fageing :: "real \<Rightarrow> real \<Rightarrow> real" where
  "fageing age x = exp (x * (age - 35))"

definition fcentral :: "real \<Rightarrow> real" where
  "fcentral x = fsigmoid x 33.6 1"

definition fclmaturation :: "real \<Rightarrow> real" where
  "fclmaturation weeks = fsigmoid weeks 42.3 9.06"

definition fq3maturation :: "real \<Rightarrow> real" where
  "fq3maturation weeks = fsigmoid (weeks + 40) 68.3 1"

definition fffm :: "real \<Rightarrow> real \<Rightarrow> real \<Rightarrow> Sex \<Rightarrow> real" where
  "fffm weight height age sx =
     (let bmi = weight / pow (height / 100) 2 in
      if sx = Male then
        (0.88 + (1 - 0.88) / (1 + pow (age / 13.4) (- 12.7))) * ((9270 * weight) / (6680 + 216 * bmi))
      else
        (1.11 + (1 - 1.11) / (1 + pow (age / 7.1) (- 1.1))) * ((9270 * weight) / (8780 + 244 * bmi)))"

text \<open>The constant \<^verbatim>\<open>toWeeks\<close> and the expression bound to \<^verbatim>\<open>ffmRef\<close> in both
  branches of \<^verbatim>\<open>eleveldParameters\<close>.\<close>

definition toWeeks :: real where
  "toWeeks = 52.1429"

definition ffmRef :: real where
  "ffmRef = (0.88 + (1 - 0.88) / (1 + pow (35 / 13.4) (- 12.7))) * ((9270 * 70) / (6680 + 216 * 24.22145))"

definition eleveldParameters :: "Params \<Rightarrow> PKParams" where
  "eleveldParameters p =
     (if drug p = Propofol then
        (let PMA = ageYears p * toWeeks + 40;
             vc0 = 6.28 * fcentral (weightKg p) / fcentral 70;
             v20 = 25.5 * weightKg p / 70 * fageing (ageYears p) (- 0.0156);
             v3a = 273 * fffm (weightKg p) (heightCm p) (ageYears p) (sex p) / ffmRef;
             v30 = v3a * exp (- 0.0138 * ageYears p);
             v2ref = 25.5;
             v3ref = 273;
             cl10 = (if sex p = Male
                     then 1.79 * pow (weightKg p / 70) 0.75 * (fclmaturation PMA / fclmaturation (35 * toWeeks + 40))
                     else 2.1 * pow (weightKg p / 70) 0.75 * (fclmaturation PMA / fclmaturation (35 * toWeeks + 40)));
             cl2 = 1.75 * pow (v20 / v2ref) 0.75 * (1 + 1.3 * (1 - fq3maturation (ageYears p * toWeeks)));
             cl3 = 1.11 * pow (v30 / v3ref) 0.75 * (fq3maturation (ageYears p * toWeeks) / fq3maturation (35 * toWeeks));
             ke00 = 0.146 * pow (weightKg p / 70) (- 0.25)
         in \<lparr>vc = vc0, v2 = v20, v3 = v30, k10 = cl10 / vc0, k12 = cl2 / vc0, k13 = cl3 / vc0,
             k21 = cl2 / v20, k31 = cl3 / v30, ke0 = ke00, cl1 = cl10\<rparr>)
      else
        (let size = fffm (weightKg p) (heightCm p) (ageYears p) (sex p) / ffmRef;
             ksex = (if sex p = Male then 1
                     else 1 + 0.47 * fsigmoid (ageYears p) 12 6 * (1 - fsigmoid (ageYears p) 45 6));
             vc0 = 5.81 * size * fageing (ageYears p) (- 0.00554);
             v20 = 8.82 * size * fageing (ageYears p) (- 0.00327) * ksex;
             v30 = 5.03 * size * fageing (ageYears p) (- 0.0315) * exp (- 0.026 * (weightKg p - 70));
             cl10 = 2.58 * pow size 0.75 * (fsigmoid (weightKg p) 2.88 2 / fsigmoid 70 2.88 2) * ksex
                      * fageing (ageYears p) (- 0.00327);
             cl2 = 1.72 * pow (v20 / 8.82) 0.75 * fageing (ageYears p) (- 0.00554) * ksex;
             cl3 = 0.124 * pow (v30 / 5.03) 0.75 * fageing (ageYears p) (- 0.00554);
             ke00 = (if ageYears p \<le> 16 then 0.71 else 1.09 * fageing (ageYears p) (- 0.0289))
         in \<lparr>vc = vc0, v2 = v20, v3 = v30, k10 = cl10 / vc0, k12 = cl2 / vc0, k13 = cl3 / vc0,
             k21 = cl2 / v20, k31 = cl3 / v30, ke0 = ke00, cl1 = cl10\<rparr>))"

subsection \<open>Loading dose calculator\<close>

definition startCe :: "Params \<Rightarrow> real" where
  "startCe params = (case currentCe params of None \<Rightarrow> 0 | Some c \<Rightarrow> c)"

text \<open>\<^verbatim>\<open>calculateLoadingDose\<close> returns \<^verbatim>\<open>{ loadingDoseMg: doseMg, durationSec }\<close>,
  here the pair \<open>(doseMg, durationSec)\<close>.\<close>

definition calculateLoadingDose :: "Params \<Rightarrow> real \<times> real" where
  "calculateLoadingDose params =
     (let p = eleveldParameters params;
          deltaCe = max (targetCe params - startCe params) 0;
          doseMg = deltaCe * vc p;
          mgPerSec = concentrationMgPerMl params * (1000 / 3600);
          durationSec = doseMg / mgPerSec
      in (doseMg, durationSec))"

subsection \<open>Infusion simulator\<close>

text \<open>\<^verbatim>\<open>Math.round\<close>: the nearest integer, halves rounded up.\<close>

definition Math_round :: "real \<Rightarrow> real" where
  "Math_round x = of_int \<lfloor>x + 1 / 2\<rfloor>"

text \<open>The mutable locals of \<^verbatim>\<open>eleveldProtocol\<close>. \<open>elapsed\<close> is the local
  \<^verbatim>\<open>time\<close> (the unrounded clock; the name \<open>time\<close> is the field of a step).
  \<open>remainingMg\<close> is declared between the two loops in the source, from the input
  alone; the loading loop neither reads nor writes it.\<close>

record SimState =
  C1 :: real
  C2 :: real
  C3 :: real
  Ce :: real
  cumulative :: real
  elapsed :: real
  remainingMg :: real
  steps :: "DosingStep list"

definition interval :: "Params \<Rightarrow> real" where
  "interval params = (case intervalSec params of None \<Rightarrow> 10 | Some i \<Rightarrow> i)"

definition maxRateMgSec :: "Params \<Rightarrow> real" where
  "maxRateMgSec params = concentrationMgPerMl params * (1000 / 3600)"

text \<open>Line 159: \<^verbatim>\<open>(params.volumeMl ?? 0) * params.concentrationMgPerMl\<close>, the mass
  the second loop may deliver.\<close>

definition maintenanceBudgetMg :: "Params \<Rightarrow> real" where
  "maintenanceBudgetMg params =
     (case volumeMl params of None \<Rightarrow> 0 | Some v \<Rightarrow> v) * concentrationMgPerMl params"

text \<open>Lines 109 to 114: a loading dose or duration the caller gives is kept, a missing
  one is taken from \<open>calculateLoadingDose\<close>. \<open>resolvedLoadingDoseMg\<close> is the variable
  \<^verbatim>\<open>loadingDoseMg\<close> from then on; \<open>requestedLoadingDurationSec\<close> is
  \<^verbatim>\<open>loadingDurationSec\<close> before the pump limit of lines 117 to 121 is applied.\<close>

definition resolvedLoadingDoseMg :: "Params \<Rightarrow> real" where
  "resolvedLoadingDoseMg params =
     (case loadingDoseMg params of None \<Rightarrow> fst (calculateLoadingDose params) | Some d \<Rightarrow> d)"

definition requestedLoadingDurationSec :: "Params \<Rightarrow> real" where
  "requestedLoadingDurationSec params =
     (case loadingDurationSec params of None \<Rightarrow> snd (calculateLoadingDose params) | Some d \<Rightarrow> d)"

text \<open>The test \<^verbatim>\<open>loadingDoseMg / loadingDurationSec > maxRateMgSec\<close> of line 118.
  With a zero duration JavaScript's quotient is \<open>+Infinity\<close> for a positive dose (the
  test holds), \<open>-Infinity\<close> for a negative one and \<open>NaN\<close> for a zero dose (the
  test fails).\<close>

definition bolusExceeds :: "real \<Rightarrow> real \<Rightarrow> real \<Rightarrow> bool" where
  "bolusExceeds doseMg durationSec maxRate =
     (if durationSec = 0 then 0 < doseMg else doseMg / durationSec > maxRate)"

text \<open>Lines 117 to 121. When the test fails on a zero duration the rate is
  \<open>-Infinity\<close> or \<open>NaN\<close> in JavaScript and is never read, since the loading loop
  does not run; the model has \<open>doseMg / 0 = 0\<close> there.\<close>

definition bolusRateMgSec :: "Params \<Rightarrow> real" where
  "bolusRateMgSec params =
     (if bolusExceeds (resolvedLoadingDoseMg params) (requestedLoadingDurationSec params) (maxRateMgSec params)
      then maxRateMgSec params
      else resolvedLoadingDoseMg params / requestedLoadingDurationSec params)"

definition resolvedLoadingDurationSec :: "Params \<Rightarrow> real" where
  "resolvedLoadingDurationSec params =
     (if bolusExceeds (resolvedLoadingDoseMg params) (requestedLoadingDurationSec params) (maxRateMgSec params)
      then resolvedLoadingDoseMg params / maxRateMgSec params
      else requestedLoadingDurationSec params)"

text \<open>One pass of the loading loop, lines 134 to 156.\<close>

definition loadingTick :: "PKParams \<Rightarrow> Params \<Rightarrow> real \<Rightarrow> real \<Rightarrow> SimState \<Rightarrow> SimState" where
  "loadingTick p params bolusRate durationSec s =
     (let dt = min (interval params) (durationSec - elapsed s);
          ratePerKg = (bolusRate * 60) / weightKg params * 1000;
          dC1 = (bolusRate / vc p) - (k10 p + k12 p + k13 p) * C1 s + k21 p * C2 s + k31 p * C3 s;
          dC2 = k12 p * C1 s - k21 p * C2 s;
          dC3 = k13 p * C1 s - k31 p * C3 s;
          dCe = ke0 p * (C1 s - Ce s);
          Ce' = Ce s + dCe * dt;
          cumulative' = cumulative s + bolusRate * dt;
          time' = elapsed s + dt
      in s\<lparr>C1 := C1 s + dC1 * dt, C2 := C2 s + dC2 * dt, C3 := C3 s + dC3 * dt, Ce := Ce',
            cumulative := cumulative', elapsed := time',
            steps := steps s @ [\<lparr>time = Math_round time', rate = ratePerKg, ce = Ce',
                                  cumulativeDoseMg = cumulative', phase = Loading\<rparr>]\<rparr>)"

partial_function (option) loadingLoop ::
  "PKParams \<Rightarrow> Params \<Rightarrow> real \<Rightarrow> real \<Rightarrow> SimState \<Rightarrow> SimState option" where
  "loadingLoop p params bolusRate durationSec s =
     (if elapsed s < durationSec
      then loadingLoop p params bolusRate durationSec (loadingTick p params bolusRate durationSec s)
      else Some s)"

text \<open>The rate chosen in one pass of the second loop, lines 162 to 171.\<close>

definition infusionRateMgSec :: "PKParams \<Rightarrow> Params \<Rightarrow> SimState \<Rightarrow> real" where
  "infusionRateMgSec p params s =
     (if remainingMg s > 0 then
        (let error = targetCe params - Ce s;
             desiredMgSec = (targetCe params * cl1 p + error * vc p * ke0 p) / 60;
             desiredMgSec = (if desiredMgSec < 0 then 0 else desiredMgSec);
             infusionRate = min (maxRateMgSec params) desiredMgSec;
             maxDeliver = remainingMg s / interval params
         in if infusionRate > maxDeliver then maxDeliver else infusionRate)
      else 0)"

text \<open>One pass of the second loop, lines 161 to 196.\<close>

definition maintenanceTick :: "PKParams \<Rightarrow> Params \<Rightarrow> SimState \<Rightarrow> SimState" where
  "maintenanceTick p params s =
     (let dt = interval params;
          infusionRate = infusionRateMgSec p params s;
          remainingMg' = (if remainingMg s > 0 then remainingMg s - infusionRate * dt else remainingMg s);
          ratePerKg = (infusionRate * 60) / weightKg params * 1000;
          dC1 = (infusionRate / vc p) - (k10 p + k12 p + k13 p) * C1 s + k21 p * C2 s + k31 p * C3 s;
          dC2 = k12 p * C1 s - k21 p * C2 s;
          dC3 = k13 p * C1 s - k31 p * C3 s;
          dCe = ke0 p * (C1 s - Ce s);
          Ce' = Ce s + dCe * dt;
          cumulative' = cumulative s + infusionRate * dt;
          time' = elapsed s + dt
      in s\<lparr>C1 := C1 s + dC1 * dt, C2 := C2 s + dC2 * dt, C3 := C3 s + dC3 * dt, Ce := Ce',
            cumulative := cumulative', elapsed := time', remainingMg := remainingMg',
            steps := steps s @ [\<lparr>time = Math_round time', rate = ratePerKg, ce = Ce',
                                  cumulativeDoseMg = cumulative',
                                  phase = (if remainingMg' > 0 then Maintenance else Decay)\<rparr>]\<rparr>)"

text \<open>The second loop, lines 160 to 199: \<^verbatim>\<open>while (remainingMg > 0 || Ce > 0.01)\<close>
  with the \<^verbatim>\<open>break\<close> of line 198 after the pass.\<close>

partial_function (option) maintenanceLoop ::
  "PKParams \<Rightarrow> Params \<Rightarrow> SimState \<Rightarrow> SimState option" where
  "maintenanceLoop p params s =
     (if remainingMg s > 0 \<or> Ce s > 0.01 then
        (if remainingMg (maintenanceTick p params s) \<le> 0 \<and> Ce (maintenanceTick p params s) \<le> 0.01
         then Some (maintenanceTick p params s)
         else maintenanceLoop p params (maintenanceTick p params s))
      else Some s)"

definition initialState :: "Params \<Rightarrow> SimState" where
  "initialState params =
     \<lparr>C1 = startCe params, C2 = 0, C3 = 0, Ce = startCe params, cumulative = 0, elapsed = 0,
      remainingMg = (case volumeMl params of None \<Rightarrow> 0 | Some v \<Rightarrow> v) * concentrationMgPerMl params,
      steps = []\<rparr>"

text \<open>\<^verbatim>\<open>eleveldProtocol\<close>: \<open>None\<close> when one of the loops does not return.\<close>

definition eleveldProtocol :: "Params \<Rightarrow> DosingStep list option" where
  "eleveldProtocol params =
     (let p = eleveldParameters params in
      case loadingLoop p params (bolusRateMgSec params) (resolvedLoadingDurationSec params)
             (initialState params) of
        None \<Rightarrow> None
      | Some s1 \<Rightarrow>
          (case maintenanceLoop p params s1 of
             None \<Rightarrow> None
           | Some s2 \<Rightarrow> Some (steps s2)))"

subsection \<open>Valid inputs\<close>

text \<open>The covariates the parameter model is specified for: weight, height and age
  strictly positive (the drug selector is one of the two drugs by its type).\<close>

definition validCovariates :: "Params \<Rightarrow> bool" where
  "validCovariates p = (0 < ageYears p \<and> 0 < weightKg p \<and> 0 < heightCm p)"

text \<open>A valid input of the simulator: valid covariates, a positive reservoir
  concentration, a non-negative target, and optional fields that are positive
  (the interval) or non-negative (volume, starting concentration, loading
  overrides) when they are given.\<close>

definition validInput :: "Params \<Rightarrow> bool" where
  "validInput p =
     (validCovariates p \<and> 0 < concentrationMgPerMl p \<and> 0 \<le> targetCe p
      \<and> (case intervalSec p of None \<Rightarrow> True | Some i \<Rightarrow> 0 < i)
      \<and> (case volumeMl p of None \<Rightarrow> True | Some v \<Rightarrow> 0 \<le> v)
      \<and> (case currentCe p of None \<Rightarrow> True | Some c \<Rightarrow> 0 \<le> c)
      \<and> (case loadingDoseMg p of None \<Rightarrow> True | Some d \<Rightarrow> 0 \<le> d)
      \<and> (case loadingDurationSec p of None \<Rightarrow> True | Some d \<Rightarrow> 0 \<le> d))"

subsection \<open>Concrete inputs\<close>

text \<open>The reference patient, the input of the specification's termination test:
  propofol, 70 kg, 35 years, male, 170 cm, target 3, maintenance volume 20 mL at
  10 mg/mL, interval 10 s, no overrides, no starting concentration.\<close>

definition refPropofol :: Params where
  "refPropofol = \<lparr>drug = Propofol, concentrationMgPerMl = 10, ageYears = 35, sex = Male,
     weightKg = 70, heightCm = 170, targetCe = 3, intervalSec = Some 10, volumeMl = Some 20,
     currentCe = None, loadingDoseMg = None, loadingDurationSec = None\<rparr>"

text \<open>Three variations of it: a target of 4.5 with no maintenance volume (the loading
  infusion then lasts 10.1736 s); a patient already at the target, with no maintenance
  volume; and the same with a maintenance volume of 0.1 mL.\<close>

definition timeInput :: Params where
  "timeInput = refPropofol\<lparr>targetCe := 4.5, volumeMl := None\<rparr>"

definition steadyInput :: Params where
  "steadyInput = refPropofol\<lparr>currentCe := Some 3, volumeMl := None\<rparr>"

definition maintInput :: Params where
  "maintInput = refPropofol\<lparr>currentCe := Some 3, volumeMl := Some 0.1\<rparr>"


text \<open>The covariates of the reference patient.\<close>

definition refCovariates :: "Params \<Rightarrow> bool" where
  "refCovariates q = (drug q = Propofol \<and> ageYears q = 35 \<and> sex q = Male
      \<and> weightKg q = 70 \<and> heightCm q = 170)"

subsection \<open>An interval evaluator for concrete runs\<close>

text \<open>
  On a concrete patient the rate constants \<open>k13\<close> and \<open>k31\<close> are irrational (they
  come from \<open>exp\<close> and \<open>powr\<close>), so a run cannot be computed exactly. The
  evaluator below runs the two loops on enclosures: a real \<open>x\<close> is enclosed by a pair
  of integers \<open>(l, u)\<close> when \<open>l / 10^6 \<le> x \<le> u / 10^6\<close>. Sums, differences and
  products of enclosures are rounded outwards. Every test of the loops is decided from
  the enclosures or the evaluator gives up (\<open>None\<close>); the clock is exact. The
  evaluator is proved sound below (\<open>aprotocol_sound\<close>): when it returns a list of
  enclosed steps, \<open>eleveldProtocol\<close> returns a list of steps inside them.
\<close>

definition scale :: int where
  "scale = 1000000"

type_synonym ivl = "int \<times> int"

definition inI :: "real \<Rightarrow> ivl \<Rightarrow> bool" where
  "inI x A = (real_of_int (fst A) \<le> x * real_of_int scale \<and> x * real_of_int scale \<le> real_of_int (snd A))"

definition dn :: "int \<Rightarrow> int" where
  "dn m = m div scale"

definition up :: "int \<Rightarrow> int" where
  "up m = - ((- m) div scale)"

fun iadd :: "ivl \<Rightarrow> ivl \<Rightarrow> ivl" where
  "iadd (a, b) (c, d) = (a + c, b + d)"

fun isub :: "ivl \<Rightarrow> ivl \<Rightarrow> ivl" where
  "isub (a, b) (c, d) = (a - d, b - c)"

fun imul :: "ivl \<Rightarrow> ivl \<Rightarrow> ivl" where
  "imul (a, b) (c, d) =
     (dn (min (min (a * c) (a * d)) (min (b * c) (b * d))),
      up (max (max (a * c) (a * d)) (max (b * c) (b * d))))"

fun imax0 :: "ivl \<Rightarrow> ivl" where
  "imax0 (a, b) = (max a 0, max b 0)"

fun imin :: "ivl \<Rightarrow> ivl \<Rightarrow> ivl" where
  "imin (a, b) (c, d) = (min a c, min b d)"

text \<open>The rate the second loop asks for before the budget limits it (lines 164 to
  167), named so that its enclosure can be stated.\<close>

definition desiredRate :: "PKParams \<Rightarrow> Params \<Rightarrow> SimState \<Rightarrow> real" where
  "desiredRate p params s =
     min (maxRateMgSec params)
       (if (targetCe params * cl1 p + (targetCe params - Ce s) * vc p * ke0 p) / 60 < 0 then 0
        else (targetCe params * cl1 p + (targetCe params - Ce s) * vc p * ke0 p) / 60)"

text \<open>Enclosures of the parameters a run reads, of an emitted step and of the state.
  \<open>a_dt\<close> is the interval in units of \<open>10^-6\<close> s, \<open>a_kg\<close> encloses
  \<open>60000 / weightKg\<close>, \<open>a_vcinv\<close> encloses \<open>1 / vc\<close>.\<close>

datatype AParams = AParams
  (a_vc: ivl) (a_vcinv: ivl) (a_k10: ivl) (a_k12: ivl) (a_k13: ivl) (a_k21: ivl) (a_k31: ivl)
  (a_ke0: ivl) (a_cl1: ivl) (a_target: ivl) (a_maxRate: ivl) (a_kg: ivl) (a_inv60: ivl)
  (a_dtinv: ivl) (a_dt: int)

datatype AStep = AStep (atime: int) (arate: ivl) (ace: ivl) (acum: ivl) (aphase: Phase)

datatype AState = AState
  (aC1: ivl) (aC2: ivl) (aC3: ivl) (aCe: ivl) (aCum: ivl) (aRem: ivl) (aEl: int) (aSteps: "AStep list")

definition relParams :: "AParams \<Rightarrow> PKParams \<Rightarrow> Params \<Rightarrow> bool" where
  "relParams ap p params =
     (inI (vc p) (a_vc ap) \<and> inI (1 / vc p) (a_vcinv ap) \<and> inI (k10 p) (a_k10 ap)
      \<and> inI (k12 p) (a_k12 ap) \<and> inI (k13 p) (a_k13 ap) \<and> inI (k21 p) (a_k21 ap)
      \<and> inI (k31 p) (a_k31 ap) \<and> inI (ke0 p) (a_ke0 ap) \<and> inI (cl1 p) (a_cl1 ap)
      \<and> inI (targetCe params) (a_target ap) \<and> inI (maxRateMgSec params) (a_maxRate ap)
      \<and> inI (60000 / weightKg params) (a_kg ap) \<and> inI (1 / 60) (a_inv60 ap)
      \<and> inI (1 / interval params) (a_dtinv ap)
      \<and> interval params * real_of_int scale = real_of_int (a_dt ap) \<and> 0 < a_dt ap)"

definition relStep :: "DosingStep \<Rightarrow> AStep \<Rightarrow> bool" where
  "relStep x ax =
     (time x = real_of_int (atime ax) \<and> inI (rate x) (arate ax) \<and> inI (ce x) (ace ax)
      \<and> inI (cumulativeDoseMg x) (acum ax) \<and> phase x = aphase ax)"

definition relState :: "SimState \<Rightarrow> AState \<Rightarrow> bool" where
  "relState s a =
     (inI (C1 s) (aC1 a) \<and> inI (C2 s) (aC2 a) \<and> inI (C3 s) (aC3 a) \<and> inI (Ce s) (aCe a)
      \<and> inI (cumulative s) (aCum a) \<and> inI (remainingMg s) (aRem a)
      \<and> elapsed s * real_of_int scale = real_of_int (aEl a)
      \<and> list_all2 relStep (steps s) (aSteps a))"

text \<open>The Euler step of the four concentrations, on enclosures.\<close>

definition aodeC1 :: "AParams \<Rightarrow> ivl \<Rightarrow> ivl \<Rightarrow> ivl \<Rightarrow> ivl \<Rightarrow> ivl \<Rightarrow> ivl" where
  "aodeC1 ap r dt y1 y2 y3 =
     iadd y1 (imul (iadd (iadd (isub (imul r (a_vcinv ap))
                                      (imul (iadd (iadd (a_k10 ap) (a_k12 ap)) (a_k13 ap)) y1))
                                (imul (a_k21 ap) y2))
                          (imul (a_k31 ap) y3)) dt)"

definition aodeC2 :: "AParams \<Rightarrow> ivl \<Rightarrow> ivl \<Rightarrow> ivl \<Rightarrow> ivl" where
  "aodeC2 ap dt y1 y2 = iadd y2 (imul (isub (imul (a_k12 ap) y1) (imul (a_k21 ap) y2)) dt)"

definition aodeC3 :: "AParams \<Rightarrow> ivl \<Rightarrow> ivl \<Rightarrow> ivl \<Rightarrow> ivl" where
  "aodeC3 ap dt y1 y3 = iadd y3 (imul (isub (imul (a_k13 ap) y1) (imul (a_k31 ap) y3)) dt)"

definition aodeCe :: "AParams \<Rightarrow> ivl \<Rightarrow> ivl \<Rightarrow> ivl \<Rightarrow> ivl" where
  "aodeCe ap dt y1 ye = iadd ye (imul (imul (a_ke0 ap) (isub y1 ye)) dt)"

text \<open>\<^verbatim>\<open>Math.round\<close> of a clock given in units of \<open>10^-6\<close> s.\<close>

definition around :: "int \<Rightarrow> int" where
  "around el = (2 * el + scale) div (2 * scale)"

text \<open>The state after a pass with rate \<open>r\<close>, step \<open>dtv\<close> and new budget \<open>rem'\<close>,
  with the emitted step appended.\<close>

fun anext :: "AParams \<Rightarrow> ivl \<Rightarrow> ivl \<Rightarrow> int \<Rightarrow> ivl \<Rightarrow> Phase \<Rightarrow> AState \<Rightarrow> AState" where
  "anext ap r rem' dtv perKg ph (AState y1 y2 y3 ye cum rem el xs) =
     AState (aodeC1 ap r (dtv, dtv) y1 y2 y3) (aodeC2 ap (dtv, dtv) y1 y2) (aodeC3 ap (dtv, dtv) y1 y3)
       (aodeCe ap (dtv, dtv) y1 ye) (iadd cum (imul r (dtv, dtv))) rem' (el + dtv)
       (xs @ [AStep (around (el + dtv)) perKg (aodeCe ap (dtv, dtv) y1 ye)
                (iadd cum (imul r (dtv, dtv))) ph])"

definition aloadingTick :: "AParams \<Rightarrow> ivl \<Rightarrow> int \<Rightarrow> AState \<Rightarrow> AState" where
  "aloadingTick ap b Dv a =
     anext ap b (aRem a) (min (a_dt ap) (Dv - aEl a)) (imul b (a_kg ap)) Loading a"

fun aloadingLoop :: "nat \<Rightarrow> AParams \<Rightarrow> ivl \<Rightarrow> int \<Rightarrow> AState \<Rightarrow> AState option" where
  "aloadingLoop 0 ap b Dv a = None"
| "aloadingLoop (Suc n) ap b Dv a =
     (if aEl a < Dv then aloadingLoop n ap b Dv (aloadingTick ap b Dv a) else Some a)"

definition arate0 :: "AParams \<Rightarrow> ivl \<Rightarrow> ivl" where
  "arate0 ap ye =
     imin (a_maxRate ap)
       (imax0 (imul (iadd (imul (a_target ap) (a_cl1 ap))
                          (imul (imul (isub (a_target ap) ye) (a_vc ap)) (a_ke0 ap)))
                    (a_inv60 ap)))"

fun aremaining :: "ivl \<Rightarrow> ivl \<Rightarrow> ivl" where
  "aremaining (rl, ru) (xl, xu) = (max (rl - xu) 0, max (ru - xl) 0)"

definition afinish :: "AParams \<Rightarrow> ivl \<Rightarrow> ivl \<Rightarrow> AState \<Rightarrow> AState option" where
  "afinish ap r rem' a =
     (if 0 < fst rem' then Some (anext ap r rem' (a_dt ap) (imul r (a_kg ap)) Maintenance a)
      else if snd rem' \<le> 0 then Some (anext ap r rem' (a_dt ap) (imul r (a_kg ap)) Decay a)
      else None)"

definition amaintenanceTick :: "AParams \<Rightarrow> AState \<Rightarrow> AState option" where
  "amaintenanceTick ap a =
     (if 0 < fst (aRem a) then
        afinish ap (imin (arate0 ap (aCe a)) (imul (aRem a) (a_dtinv ap)))
          (aremaining (aRem a) (imul (arate0 ap (aCe a)) (a_dt ap, a_dt ap))) a
      else if snd (aRem a) \<le> 0 then afinish ap (0, 0) (aRem a) a
      else None)"

definition threshold :: int where
  "threshold = scale div 100"

definition acontinue :: "AState \<Rightarrow> bool" where
  "acontinue a = (0 < fst (aRem a) \<or> threshold < fst (aCe a))"

definition astop :: "AState \<Rightarrow> bool" where
  "astop a = (snd (aRem a) \<le> 0 \<and> snd (aCe a) \<le> threshold)"

fun amaintenanceLoop :: "nat \<Rightarrow> AParams \<Rightarrow> AState \<Rightarrow> AState option" where
  "amaintenanceLoop 0 ap a = None"
| "amaintenanceLoop (Suc n) ap a =
     (if acontinue a then
        (case amaintenanceTick ap a of
           None \<Rightarrow> None
         | Some a' \<Rightarrow>
             if astop a' then Some a'
             else if acontinue a' then amaintenanceLoop n ap a'
             else None)
      else if astop a then Some a
      else None)"

definition aprotocol :: "nat \<Rightarrow> AParams \<Rightarrow> ivl \<Rightarrow> int \<Rightarrow> AState \<Rightarrow> AStep list option" where
  "aprotocol n ap b Dv a =
     (case aloadingLoop n ap b Dv a of
        None \<Rightarrow> None
      | Some a1 \<Rightarrow>
          (case amaintenanceLoop n ap a1 of
             None \<Rightarrow> None
           | Some a2 \<Rightarrow> Some (aSteps a2)))"

text \<open>The enclosures used for the reference patient's covariates (the target is a
  parameter), the initial state, and the four runs the evaluator returns.
  \<open>refX\<close> is \<open>v3 / 273\<close> for the reference patient.\<close>

definition refX :: real where
  "refX = (6680 + 216 * 24.22145) / (6680 + 216 * (70 / 2.89)) * exp (- 0.483)"

definition refAParams :: "ivl \<Rightarrow> AParams" where
  "refAParams tgt = AParams (6280000, 6280000) (159235, 159236) (285031, 285032) (291460, 291461)
     (123019, 123055) (71779, 71780) (4587, 4589) (146000, 146000) (1790000, 1790000)
     tgt (2777777, 2777778) (857142857, 857142858) (16666, 16667)
     (100000, 100000) 10000000"

definition initialAState :: "ivl \<Rightarrow> ivl \<Rightarrow> AState" where
  "initialAState start budget = AState start (0, 0) (0, 0) start (0, 0) budget 0 []"

definition refASteps :: "AStep list" where
  "refASteps =
    [AStep 7 (2380951713, 2380952574) (0, 0) (18839994, 18840002) Loading,
     AStep 17 (116003999, 116011715) (4379970, 4380020) (20193374, 20193472) Maintenance,
     AStep 27 (58635428, 58640572) (- 27960590, - 27958400) (20877454, 20877612) Maintenance,
     AStep 37 (482196857, 482255144) (177960890, 177993090) (26503084, 26503922) Maintenance,
     AStep 47 (0, 0) (- 1123580450, - 1123217240) (26503084, 26503922) Maintenance,
     AStep 57 (2380951713, 2380952574) (7098212000, 7101851020) (54280854, 54281702) Maintenance,
     AStep 67 (0, 0) (- 44881888660, - 44847675510) (54280854, 54281702) Maintenance,
     AStep 77 (2380951713, 2380952574) (283386825480, 283696443220) (82058624, 82059482) Maintenance,
     AStep 87 (0, 0) (- 1793322213020, - 1790588213520) (82058624, 82059482) Maintenance,
     AStep 97 (2380951713, 2380952574) (11313159900010, 11336905666890) (109836394, 109837262) Maintenance,
     AStep 107 (0, 0) (- 71675357788600, - 71471479245900) (109836394, 109837262) Maintenance,
     AStep 117 (2380951713, 2380952574) (451470993870460, 453207165335790) (137614164, 137615042) Maintenance,
     AStep 127 (0, 0) (- 2866100431487530, - 2851403330182940) (137614164, 137615042) Maintenance,
     AStep 137 (2380951713, 2380952574) (18005179017986340, 18129052263376730) (165391934, 165392822) Maintenance,
     AStep 147 (0, 0) (- 114703279381700470, - 113662586129751460) (165391934, 165392822) Maintenance,
     AStep 157 (2380951713, 2380952574) (717267239354543870, 725989417657449480) (193169704, 193170602) Maintenance,
     AStep 167 (0, 0) (- 4597127044814147790, - 4524156655412064020) (193169704, 193170602) Maintenance,
     AStep 177 (2200234285, 2200310574) (28518120806024721690, 29127772980128410900) (218839104, 218840892) Decay,
     AStep 187 (0, 0) (- 184703247742004668980, - 179614908534732866980) (218839104, 218840892) Decay]"


definition steadyASteps :: "AStep list" where
  "steadyASteps =
    [AStep 10 (0, 0) (3000000, 3000000) (0, 0) Decay,
     AStep 20 (0, 0) (- 27640210, - 27638530) (0, 0) Decay]"

definition maintASteps :: "AStep list" where
  "maintASteps =
    [AStep 10 (76710857, 76716001) (3000000, 3000000) (894960, 895020) Maintenance,
     AStep 20 (8998285, 9003429) (- 27432160, - 27430450) (999940, 1000060) Decay]"

subsection \<open>The range of doubles and two regions of the state space\<close>




section \<open>Properties\<close>

subsection \<open>Positivity of the building blocks\<close>

lemma pow_pos: "0 < x \<Longrightarrow> 0 < pow x z"
  by (simp add: pow_def)

lemma fsigmoid_pos: "0 < x \<Longrightarrow> 0 < y \<Longrightarrow> 0 < fsigmoid x y z"
  by (simp add: fsigmoid_def pow_pos add_pos_pos)

lemma fsigmoid_less_1: "0 < x \<Longrightarrow> 0 < y \<Longrightarrow> fsigmoid x y z < 1"
proof -
  assume x: "0 < x" and y: "0 < y"
  have "0 < pow x z" "0 < pow y z" using x y by (simp_all add: pow_pos)
  then show ?thesis by (simp add: fsigmoid_def)
qed

lemma fageing_pos: "0 < fageing a x"
  by (simp add: fageing_def)

lemma fffm_pos:
  assumes "0 < weight" "0 < height" "0 < age"
  shows "0 < fffm weight height age sx"
proof -
  define bmi where "bmi = weight / pow (height / 100) 2"
  have bmi: "0 < bmi" using assms by (simp add: bmi_def pow_pos)
  have m: "0 < (9270 * weight) / (6680 + 216 * bmi)"
    using assms bmi by (intro divide_pos_pos mult_pos_pos add_pos_pos) simp_all
  have f: "0 < (9270 * weight) / (8780 + 244 * bmi)"
    using assms bmi by (intro divide_pos_pos mult_pos_pos add_pos_pos) simp_all
  have pm: "0 < pow (age / 13.4) (- 12.7)" using assms by (simp add: pow_pos)
  have pf: "0 < pow (age / 7.1) (- 1.1)" using assms by (simp add: pow_pos)
  have am: "0 < 0.88 + (1 - 0.88) / (1 + pow (age / 13.4) (- 12.7))"
    using pm by (intro add_pos_pos divide_pos_pos) simp_all
  have "(11 / 100) / (1 + pow (age / 7.1) (- 1.1)) < (11 / 100) / 1"
    using pf by (intro divide_strict_left_mono) simp_all
  then have af: "0 < 1.11 + (1 - 1.11) / (1 + pow (age / 7.1) (- 1.1))"
    by (simp add: field_simps)
  show ?thesis
    unfolding fffm_def Let_def bmi_def [symmetric]
    using mult_pos_pos [OF am m] mult_pos_pos [OF af f] by simp
qed

lemma ffmRef_pos: "0 < ffmRef"
proof -
  have "0 < pow (35 / 13.4) (- 12.7)" by (simp add: pow_pos)
  then have "0 < 0.88 + (1 - 0.88) / (1 + pow (35 / 13.4) (- 12.7))"
    by (intro add_pos_pos divide_pos_pos) simp_all
  then show ?thesis unfolding ffmRef_def by (intro mult_pos_pos) simp_all
qed

lemma propofol_pos:
  assumes v: "validCovariates p" and d: "drug p = Propofol"
  shows "0 < vc (eleveldParameters p) \<and> 0 < v2 (eleveldParameters p) \<and> 0 < v3 (eleveldParameters p)
       \<and> 0 < k10 (eleveldParameters p) \<and> 0 < k12 (eleveldParameters p) \<and> 0 < k13 (eleveldParameters p)
       \<and> 0 < k21 (eleveldParameters p) \<and> 0 < k31 (eleveldParameters p) \<and> 0 < ke0 (eleveldParameters p)
       \<and> 0 < cl1 (eleveldParameters p)"
proof -
  have a: "0 < ageYears p" and w: "0 < weightKg p" and h: "0 < heightCm p"
    using v by (simp_all add: validCovariates_def)
  define PMA where "PMA = ageYears p * toWeeks + 40"
  define vc0 where "vc0 = 6.28 * fcentral (weightKg p) / fcentral 70"
  define v20 where "v20 = 25.5 * weightKg p / 70 * fageing (ageYears p) (- 0.0156)"
  define v30 where "v30 = 273 * fffm (weightKg p) (heightCm p) (ageYears p) (sex p) / ffmRef * exp (- 0.0138 * ageYears p)"
  define cl10 where "cl10 = (if sex p = Male
                     then 1.79 * pow (weightKg p / 70) 0.75 * (fclmaturation PMA / fclmaturation (35 * toWeeks + 40))
                     else 2.1 * pow (weightKg p / 70) 0.75 * (fclmaturation PMA / fclmaturation (35 * toWeeks + 40)))"
  define cl2 where "cl2 = 1.75 * pow (v20 / 25.5) 0.75 * (1 + 1.3 * (1 - fq3maturation (ageYears p * toWeeks)))"
  define cl3 where "cl3 = 1.11 * pow (v30 / 273) 0.75 * (fq3maturation (ageYears p * toWeeks) / fq3maturation (35 * toWeeks))"
  define ke00 where "ke00 = 0.146 * pow (weightKg p / 70) (- 0.25)"
  have tw: "0 < toWeeks" by (simp add: toWeeks_def)
  have pma: "0 < PMA" using a tw by (simp add: PMA_def add_pos_pos)
  have aw: "0 < ageYears p * toWeeks" using a tw by simp
  have vc0: "0 < vc0" unfolding vc0_def fcentral_def
    using w by (intro divide_pos_pos mult_pos_pos fsigmoid_pos) simp_all
  have v20: "0 < v20" unfolding v20_def
    using w by (intro divide_pos_pos mult_pos_pos fageing_pos) simp_all
  have v30: "0 < v30" unfolding v30_def
    using w h a by (intro divide_pos_pos mult_pos_pos fffm_pos ffmRef_pos) simp_all
  have clm: "0 < fclmaturation PMA / fclmaturation (35 * toWeeks + 40)"
    unfolding fclmaturation_def using pma tw
    by (intro divide_pos_pos fsigmoid_pos add_pos_pos mult_pos_pos) simp_all
  have m3: "\<And>a b c::real. 0 < a \<Longrightarrow> 0 < b \<Longrightarrow> 0 < c \<Longrightarrow> 0 < a * b * c" by simp
  have pw: "0 < pow (weightKg p / 70) 0.75" using w by (simp add: pow_pos)
  have c1: "(0::real) < 1.79" and c2: "(0::real) < 2.1" by simp_all
  have "0 < 1.79 * pow (weightKg p / 70) 0.75 * (fclmaturation PMA / fclmaturation (35 * toWeeks + 40))"
       "0 < 2.1 * pow (weightKg p / 70) 0.75 * (fclmaturation PMA / fclmaturation (35 * toWeeks + 40))"
    by (rule m3 [OF c1 pw clm], rule m3 [OF c2 pw clm])
  then have cl10: "0 < cl10" unfolding cl10_def by (simp only: if_split) blast
  have q3: "fq3maturation (ageYears p * toWeeks) < 1" "0 < fq3maturation (ageYears p * toWeeks)"
    unfolding fq3maturation_def using aw
    by (auto intro!: fsigmoid_less_1 fsigmoid_pos add_pos_pos)
  have q3r: "0 < fq3maturation (35 * toWeeks)"
    unfolding fq3maturation_def using tw
    by (auto intro!: fsigmoid_pos add_pos_pos)
  have "0 < 1 + 1.3 * (1 - fq3maturation (ageYears p * toWeeks))"
    using q3 by (intro add_pos_pos mult_pos_pos) simp_all
  moreover have "0 < pow (v20 / 25.5) 0.75" using v20 by (simp add: pow_pos)
  ultimately have cl2: "0 < cl2" unfolding cl2_def
    by (intro mult_pos_pos) simp_all
  have "0 < fq3maturation (ageYears p * toWeeks) / fq3maturation (35 * toWeeks)"
    using q3 q3r by (intro divide_pos_pos)
  moreover have "0 < pow (v30 / 273) 0.75" using v30 by (simp add: pow_pos)
  ultimately have cl3: "0 < cl3" unfolding cl3_def
    by (intro mult_pos_pos) simp_all
  have "0 < pow (weightKg p / 70) (- 0.25)" using w by (simp add: pow_pos)
  then have ke00: "0 < ke00" unfolding ke00_def
    by (intro mult_pos_pos) simp_all
  have eq: "eleveldParameters p = \<lparr>vc = vc0, v2 = v20, v3 = v30, k10 = cl10 / vc0, k12 = cl2 / vc0, k13 = cl3 / vc0,
             k21 = cl2 / v20, k31 = cl3 / v30, ke0 = ke00, cl1 = cl10\<rparr>"
    unfolding eleveldParameters_def Let_def using d
    by (simp add: vc0_def v20_def v30_def cl10_def cl2_def cl3_def ke00_def PMA_def)
  show ?thesis unfolding eq using vc0 v20 v30 cl10 cl2 cl3 ke00 by simp
qed

lemma remifentanil_pos:
  assumes v: "validCovariates p" and d: "drug p = Remifentanil"
  shows "0 < vc (eleveldParameters p) \<and> 0 < v2 (eleveldParameters p) \<and> 0 < v3 (eleveldParameters p)
       \<and> 0 < k10 (eleveldParameters p) \<and> 0 < k12 (eleveldParameters p) \<and> 0 < k13 (eleveldParameters p)
       \<and> 0 < k21 (eleveldParameters p) \<and> 0 < k31 (eleveldParameters p) \<and> 0 < ke0 (eleveldParameters p)
       \<and> 0 < cl1 (eleveldParameters p)"
proof -
  have a: "0 < ageYears p" and w: "0 < weightKg p" and h: "0 < heightCm p"
    using v by (simp_all add: validCovariates_def)
  define size where "size = fffm (weightKg p) (heightCm p) (ageYears p) (sex p) / ffmRef"
  define ksex where "ksex = (if sex p = Male then 1
                     else 1 + 0.47 * fsigmoid (ageYears p) 12 6 * (1 - fsigmoid (ageYears p) 45 6))"
  define vc0 where "vc0 = 5.81 * size * fageing (ageYears p) (- 0.00554)"
  define v20 where "v20 = 8.82 * size * fageing (ageYears p) (- 0.00327) * ksex"
  define v30 where "v30 = 5.03 * size * fageing (ageYears p) (- 0.0315) * exp (- 0.026 * (weightKg p - 70))"
  define cl10 where "cl10 = 2.58 * pow size 0.75 * (fsigmoid (weightKg p) 2.88 2 / fsigmoid 70 2.88 2) * ksex
                      * fageing (ageYears p) (- 0.00327)"
  define cl2 where "cl2 = 1.72 * pow (v20 / 8.82) 0.75 * fageing (ageYears p) (- 0.00554) * ksex"
  define cl3 where "cl3 = 0.124 * pow (v30 / 5.03) 0.75 * fageing (ageYears p) (- 0.00554)"
  define ke00 where "ke00 = (if ageYears p \<le> 16 then 0.71 else 1.09 * fageing (ageYears p) (- 0.0289))"
  have size: "0 < size" unfolding size_def
    using w h a by (intro divide_pos_pos fffm_pos ffmRef_pos)
  have "0 < 0.47 * fsigmoid (ageYears p) 12 6 * (1 - fsigmoid (ageYears p) 45 6)"
    using a fsigmoid_pos [of "ageYears p" 12 6] fsigmoid_less_1 [of "ageYears p" 45 6]
    by (intro mult_pos_pos) simp_all
  then have ksex: "0 < ksex" unfolding ksex_def by (simp only: if_split) linarith
  have vc0: "0 < vc0" unfolding vc0_def
    using size by (intro mult_pos_pos fageing_pos) simp_all
  have v20: "0 < v20" unfolding v20_def
    using size ksex by (intro mult_pos_pos fageing_pos) simp_all
  have v30: "0 < v30" unfolding v30_def
    using size by (intro mult_pos_pos fageing_pos) simp_all
  have sg: "0 < fsigmoid (weightKg p) 2.88 2 / fsigmoid 70 2.88 2"
    using w by (intro divide_pos_pos fsigmoid_pos) simp_all
  have "0 < pow size 0.75" using size by (simp add: pow_pos)
  then have cl10: "0 < cl10" unfolding cl10_def
    using sg ksex by (intro mult_pos_pos fageing_pos) simp_all
  have "0 < pow (v20 / 8.82) 0.75" using v20 by (simp add: pow_pos)
  then have cl2: "0 < cl2" unfolding cl2_def
    using ksex by (intro mult_pos_pos fageing_pos) simp_all
  have "0 < pow (v30 / 5.03) 0.75" using v30 by (simp add: pow_pos)
  then have cl3: "0 < cl3" unfolding cl3_def
    by (intro mult_pos_pos fageing_pos) simp_all
  have "0 < 1.09 * fageing (ageYears p) (- 0.0289)"
    by (intro mult_pos_pos fageing_pos) simp
  then have ke00: "0 < ke00" unfolding ke00_def by (simp only: if_split) simp
  have eq: "eleveldParameters p = \<lparr>vc = vc0, v2 = v20, v3 = v30, k10 = cl10 / vc0, k12 = cl2 / vc0, k13 = cl3 / vc0,
             k21 = cl2 / v20, k31 = cl3 / v30, ke0 = ke00, cl1 = cl10\<rparr>"
    unfolding eleveldParameters_def Let_def using d
    by (simp add: vc0_def v20_def v30_def cl10_def cl2_def cl3_def ke00_def size_def ksex_def)
  show ?thesis unfolding eq using vc0 v20 v30 cl10 cl2 cl3 ke00 by simp
qed

lemma eleveldParameters_pos:
  assumes "validCovariates p"
  shows "0 < vc (eleveldParameters p) \<and> 0 < v2 (eleveldParameters p) \<and> 0 < v3 (eleveldParameters p)
       \<and> 0 < k10 (eleveldParameters p) \<and> 0 < k12 (eleveldParameters p) \<and> 0 < k13 (eleveldParameters p)
       \<and> 0 < k21 (eleveldParameters p) \<and> 0 < k31 (eleveldParameters p) \<and> 0 < ke0 (eleveldParameters p)
       \<and> 0 < cl1 (eleveldParameters p)"
proof (cases "drug p")
  case Propofol
  then show ?thesis using assms by (rule propofol_pos [rotated])
next
  case Remifentanil
  then show ?thesis using assms by (rule remifentanil_pos [rotated])
qed

lemma validCovariates_refPropofol: "validCovariates refPropofol"
  by (simp add: validCovariates_def refPropofol_def)

subsection \<open>C1: the derived parameters are strictly positive\<close>

text \<open>
  Claim C1. For every valid covariate set (either drug, age, weight and height strictly
  positive) \<open>eleveldParameters\<close> returns strictly positive \<open>vc\<close>, \<open>v2\<close>, \<open>v3\<close>,
  \<open>k10\<close>, \<open>k12\<close>, \<open>k13\<close>, \<open>k21\<close>, \<open>k31\<close>, \<open>ke0\<close> and \<open>cl1\<close>.
\<close>

theorem eleveldParameters_positive:
  assumes "validCovariates p"
  shows "0 < vc (eleveldParameters p) \<and> 0 < v2 (eleveldParameters p) \<and> 0 < v3 (eleveldParameters p)
       \<and> 0 < k10 (eleveldParameters p) \<and> 0 < k12 (eleveldParameters p) \<and> 0 < k13 (eleveldParameters p)
       \<and> 0 < k21 (eleveldParameters p) \<and> 0 < k31 (eleveldParameters p) \<and> 0 < ke0 (eleveldParameters p)
       \<and> 0 < cl1 (eleveldParameters p)"
  using assms by (rule eleveldParameters_pos)

text \<open>Claim C1 at the reference patient.\<close>

theorem eleveldParameters_positive_witness:
  "validCovariates refPropofol \<and>
   0 < vc (eleveldParameters refPropofol) \<and> 0 < v2 (eleveldParameters refPropofol) \<and>
   0 < v3 (eleveldParameters refPropofol) \<and> 0 < k10 (eleveldParameters refPropofol) \<and>
   0 < k12 (eleveldParameters refPropofol) \<and> 0 < k13 (eleveldParameters refPropofol) \<and>
   0 < k21 (eleveldParameters refPropofol) \<and> 0 < k31 (eleveldParameters refPropofol) \<and>
   0 < ke0 (eleveldParameters refPropofol) \<and> 0 < cl1 (eleveldParameters refPropofol)"
  using validCovariates_refPropofol
    eleveldParameters_positive [OF validCovariates_refPropofol] by simp

subsection \<open>C2: the loading dose mass\<close>

lemma fcentral_70_pos: "0 < fcentral 70"
  unfolding fcentral_def by (rule fsigmoid_pos) simp_all

lemma refPropofol_vc: "vc (eleveldParameters refPropofol) = 6.28"
  using fcentral_70_pos by (simp add: eleveldParameters_def refPropofol_def Let_def)

text \<open>
  Claim C2. The dose mass returned by \<open>calculateLoadingDose\<close> equals
  \<open>(targetCe - currentCe) * vc\<close> when the target exceeds the current effect-site
  concentration and is exactly 0 otherwise; on valid covariates it is therefore
  non-negative, and strictly positive exactly when the target exceeds the current
  concentration.
\<close>

theorem calculateLoadingDose_mass:
  "(startCe params < targetCe params \<longrightarrow>
      fst (calculateLoadingDose params)
        = (targetCe params - startCe params) * vc (eleveldParameters params))
   \<and> (targetCe params \<le> startCe params \<longrightarrow> fst (calculateLoadingDose params) = 0)
   \<and> (validCovariates params \<longrightarrow>
        0 \<le> fst (calculateLoadingDose params)
        \<and> (0 < fst (calculateLoadingDose params) \<longleftrightarrow> startCe params < targetCe params))"
proof -
  have d: "fst (calculateLoadingDose params)
      = max (targetCe params - startCe params) 0 * vc (eleveldParameters params)"
    by (simp add: calculateLoadingDose_def Let_def)
  have "validCovariates params \<Longrightarrow> 0 < vc (eleveldParameters params)"
    using eleveldParameters_pos [of params] by simp
  then show ?thesis unfolding d by (auto simp: max_def zero_less_mult_iff)
qed

text \<open>Claim C2 at the reference patient: 3 * 6.28 = 18.84 mg.\<close>

theorem calculateLoadingDose_mass_witness:
  "validCovariates refPropofol \<and> startCe refPropofol < targetCe refPropofol \<and>
   fst (calculateLoadingDose refPropofol) = 18.84 \<and>
   0 < fst (calculateLoadingDose refPropofol)"
proof -
  have s: "startCe refPropofol < targetCe refPropofol"
    by (simp add: startCe_def refPropofol_def)
  have t: "(targetCe refPropofol - startCe refPropofol) * vc (eleveldParameters refPropofol) = 18.84"
    by (simp add: refPropofol_vc) (simp add: startCe_def refPropofol_def)
  show ?thesis
    using calculateLoadingDose_mass [of refPropofol] validCovariates_refPropofol s t by simp
qed

subsection \<open>Invariant rules for the two loops\<close>

text \<open>A property kept by every pass of a loop holds of the state the loop returns, if
  it returns; the loop's exit test is false there.\<close>

lemma loadingLoop_invariant_gen:
  assumes run: "loadingLoop p params b d s = Some s'"
    and step: "\<And>p params b d s. I p params b d s \<Longrightarrow> elapsed s < d \<Longrightarrow> I p params b d (loadingTick p params b d s)"
  shows "I p params b d s \<longrightarrow> I p params b d s' \<and> \<not> elapsed s' < d"
proof (rule loadingLoop.raw_induct
    [where P = "\<lambda>p params b d s s'. I p params b d s \<longrightarrow> I p params b d s' \<and> \<not> elapsed s' < d", OF _ run])
  fix loop p params b d s s'
  assume IH: "\<And>p params b d s s'. loop p params b d s = Some s' \<Longrightarrow>
                 I p params b d s \<longrightarrow> I p params b d s' \<and> \<not> elapsed s' < d"
    and body: "(if elapsed s < d then loop p params b d (loadingTick p params b d s) else Some s) = Some s'"
  show "I p params b d s \<longrightarrow> I p params b d s' \<and> \<not> elapsed s' < d"
  proof (cases "elapsed s < d")
    case True
    with body have "loop p params b d (loadingTick p params b d s) = Some s'" by simp
    from IH [OF this] step True show ?thesis by blast
  next
    case False
    with body show ?thesis by auto
  qed
qed

lemma loadingLoop_invariant:
  assumes run: "loadingLoop p params b d s = Some s'"
    and init: "J s"
    and step: "\<And>s. J s \<Longrightarrow> elapsed s < d \<Longrightarrow> J (loadingTick p params b d s)"
  shows "J s' \<and> \<not> elapsed s' < d"
  using loadingLoop_invariant_gen [OF run,
      where I = "\<lambda>p' params' b' d' s. p' = p \<and> params' = params \<and> b' = b \<and> d' = d \<and> J s"]
    init step by simp

lemma maintenanceLoop_invariant_gen:
  assumes run: "maintenanceLoop p params s = Some s'"
    and step: "\<And>p params s. I p params s \<Longrightarrow> remainingMg s > 0 \<or> Ce s > 0.01
                 \<Longrightarrow> I p params (maintenanceTick p params s)"
  shows "I p params s \<longrightarrow> I p params s' \<and> \<not> (remainingMg s' > 0 \<or> Ce s' > 0.01)"
proof (rule maintenanceLoop.raw_induct
    [where P = "\<lambda>p params s s'. I p params s \<longrightarrow> I p params s' \<and> \<not> (remainingMg s' > 0 \<or> Ce s' > 0.01)", OF _ run])
  fix loop p params s s'
  assume IH: "\<And>p params s s'. loop p params s = Some s' \<Longrightarrow>
                 I p params s \<longrightarrow> I p params s' \<and> \<not> (remainingMg s' > 0 \<or> Ce s' > 0.01)"
    and body: "(if remainingMg s > 0 \<or> Ce s > 0.01 then
        (if remainingMg (maintenanceTick p params s) \<le> 0 \<and> Ce (maintenanceTick p params s) \<le> 0.01
         then Some (maintenanceTick p params s)
         else loop p params (maintenanceTick p params s))
      else Some s) = Some s'"
  show "I p params s \<longrightarrow> I p params s' \<and> \<not> (remainingMg s' > 0 \<or> Ce s' > 0.01)"
  proof (cases "remainingMg s > 0 \<or> Ce s > 0.01")
    case True
    note c = this
    show ?thesis
    proof (cases "remainingMg (maintenanceTick p params s) \<le> 0 \<and> Ce (maintenanceTick p params s) \<le> 0.01")
      case True
      with body c have "s' = maintenanceTick p params s" by (auto split: if_splits)
      with True step [OF _ c] show ?thesis by auto
    next
      case False
      with body c have "loop p params (maintenanceTick p params s) = Some s'" by (auto split: if_splits)
      from IH [OF this] step [OF _ c] show ?thesis by blast
    qed
  next
    case False
    with body have "s' = s" by (auto split: if_splits)
    with False show ?thesis by blast
  qed
qed

lemma maintenanceLoop_invariant:
  assumes run: "maintenanceLoop p params s = Some s'"
    and init: "J s"
    and step: "\<And>s. J s \<Longrightarrow> remainingMg s > 0 \<or> Ce s > 0.01 \<Longrightarrow> J (maintenanceTick p params s)"
  shows "J s' \<and> \<not> (remainingMg s' > 0 \<or> Ce s' > 0.01)"
  using maintenanceLoop_invariant_gen [OF run,
      where I = "\<lambda>p' params' s. p' = p \<and> params' = params \<and> J s"]
    init step by simp

subsection \<open>What one pass does\<close>

lemma eleveldProtocol_SomeD:
  assumes "eleveldProtocol params = Some xs"
  obtains s1 s2 where
    "loadingLoop (eleveldParameters params) params (bolusRateMgSec params)
       (resolvedLoadingDurationSec params) (initialState params) = Some s1"
    "maintenanceLoop (eleveldParameters params) params s1 = Some s2"
    "xs = steps s2"
  using assms unfolding eleveldProtocol_def Let_def
  by (auto split: option.splits)

lemma loadingTick_steps:
  "steps (loadingTick p params b d s) = steps s @
     [\<lparr>time = Math_round (elapsed (loadingTick p params b d s)),
       rate = (b * 60) / weightKg params * 1000,
       ce = Ce (loadingTick p params b d s),
       cumulativeDoseMg = cumulative (loadingTick p params b d s),
       phase = Loading\<rparr>]"
  by (simp add: loadingTick_def Let_def)

lemma loadingTick_remainingMg: "remainingMg (loadingTick p params b d s) = remainingMg s"
  by (simp add: loadingTick_def Let_def)

lemma loadingTick_elapsed:
  "elapsed (loadingTick p params b d s) = elapsed s + min (interval params) (d - elapsed s)"
  by (simp add: loadingTick_def Let_def)

lemma loadingTick_cumulative:
  "cumulative (loadingTick p params b d s)
     = cumulative s + b * min (interval params) (d - elapsed s)"
  by (simp add: loadingTick_def Let_def)

lemma maintenanceTick_steps:
  "steps (maintenanceTick p params s) = steps s @
     [\<lparr>time = Math_round (elapsed (maintenanceTick p params s)),
       rate = (infusionRateMgSec p params s * 60) / weightKg params * 1000,
       ce = Ce (maintenanceTick p params s),
       cumulativeDoseMg = cumulative (maintenanceTick p params s),
       phase = (if remainingMg (maintenanceTick p params s) > 0 then Maintenance else Decay)\<rparr>]"
  by (simp add: maintenanceTick_def Let_def)

lemma maintenanceTick_remainingMg:
  "remainingMg (maintenanceTick p params s)
     = (if remainingMg s > 0 then remainingMg s - infusionRateMgSec p params s * interval params
        else remainingMg s)"
  by (simp add: maintenanceTick_def Let_def)

lemma maintenanceTick_elapsed:
  "elapsed (maintenanceTick p params s) = elapsed s + interval params"
  by (simp add: maintenanceTick_def Let_def)

lemma maintenanceTick_cumulative:
  "cumulative (maintenanceTick p params s)
     = cumulative s + infusionRateMgSec p params s * interval params"
  by (simp add: maintenanceTick_def Let_def)


lemma initialState_simps:
  "steps (initialState params) = []"
  "elapsed (initialState params) = 0"
  "cumulative (initialState params) = 0"
  "C1 (initialState params) = startCe params"
  "Ce (initialState params) = startCe params"
  "C2 (initialState params) = 0"
  "C3 (initialState params) = 0"
  "remainingMg (initialState params)
     = (case volumeMl params of None \<Rightarrow> 0 | Some v \<Rightarrow> v) * concentrationMgPerMl params"
  by (simp_all add: initialState_def)

subsection \<open>C6: the phase tags\<close>

lemma loadingLoop_phases:
  assumes "loadingLoop p params b d s = Some s'"
    and "\<forall>x\<in>set (steps s). phase x = Loading"
  shows "\<forall>x\<in>set (steps s'). phase x = Loading"
  using loadingLoop_invariant [OF assms(1), where J = "\<lambda>s::SimState. \<forall>x\<in>set (steps s). phase x = Loading"] assms(2)
  by (simp add: loadingTick_steps)

lemma maintenanceLoop_phases:
  assumes run: "maintenanceLoop p params s = Some s'"
    and init: "\<forall>x\<in>set (steps s). phase x = Loading"
  shows "\<exists>a b c. map phase (steps s') = replicate a Loading @ replicate b Maintenance @ replicate c Decay"
proof -
  define J where "J = (\<lambda>s::SimState. \<exists>a b c. map phase (steps s)
      = replicate a Loading @ replicate b Maintenance @ replicate c Decay
      \<and> (0 < c \<longrightarrow> remainingMg s \<le> 0))"
  have "map phase (steps s) = replicate (length (steps s)) Loading"
    using init by (simp add: map_replicate_const [symmetric] cong: map_cong)
  then have J0: "J s" unfolding J_def
    by (intro exI [of _ "length (steps s)"] exI [of _ 0]) simp
  have Jstep: "J (maintenanceTick p params t)" if Jt: "J t" for t
  proof -
    from Jt obtain a b c where
      ph: "map phase (steps t) = replicate a Loading @ replicate b Maintenance @ replicate c Decay"
      and c: "0 < c \<longrightarrow> remainingMg t \<le> 0"
      unfolding J_def by blast
    let ?t' = "maintenanceTick p params t"
    show ?thesis
    proof (cases "remainingMg ?t' > 0")
      case True
      then have "remainingMg t > 0"
        by (auto simp: maintenanceTick_remainingMg split: if_splits)
      with c have c0: "c = 0" by auto
      have "map phase (steps ?t')
          = replicate a Loading @ replicate (Suc b) Maintenance @ replicate 0 Decay"
        using True ph c0 by (simp add: maintenanceTick_steps replicate_append_same)
      then show ?thesis unfolding J_def by blast
    next
      case False
      have "map phase (steps ?t')
          = replicate a Loading @ replicate b Maintenance @ replicate (Suc c) Decay"
        using False ph by (simp add: maintenanceTick_steps replicate_append_same)
      moreover have "remainingMg ?t' \<le> 0" using False by simp
      ultimately show ?thesis unfolding J_def by blast
    qed
  qed
  from maintenanceLoop_invariant [OF run, where J = J, OF J0 Jstep]
  show ?thesis unfolding J_def by blast
qed

text \<open>
  Claim C6. The phase tags of the emitted steps read \<open>loading* maintenance* decay*\<close>:
  a block of loading steps, then a block of maintenance steps, then a block of decay
  steps, so no phase recurs after it has been left. (It holds of every run that
  returns, for any input.)
\<close>

theorem phase_sequence_monotone:
  assumes "eleveldProtocol params = Some xs"
  shows "\<exists>a b c. map phase xs = replicate a Loading @ replicate b Maintenance @ replicate c Decay"
proof -
  from assms obtain s1 s2 where
    l: "loadingLoop (eleveldParameters params) params (bolusRateMgSec params)
       (resolvedLoadingDurationSec params) (initialState params) = Some s1"
    and m: "maintenanceLoop (eleveldParameters params) params s1 = Some s2"
    and xs: "xs = steps s2"
    by (rule eleveldProtocol_SomeD)
  have "\<forall>x\<in>set (steps s1). phase x = Loading"
    by (rule loadingLoop_phases [OF l]) (simp add: initialState_simps)
  from maintenanceLoop_phases [OF m this] xs show ?thesis by simp
qed

subsection \<open>The cumulative dose in exact arithmetic\<close>

lemma validInput_interval: "validInput p \<Longrightarrow> 0 < interval p"
  by (auto simp: validInput_def interval_def split: option.splits)

lemma validInput_maxRate: "validInput p \<Longrightarrow> 0 < maxRateMgSec p"
  by (simp add: validInput_def maxRateMgSec_def)

lemma validInput_budget: "validInput p \<Longrightarrow> 0 \<le> maintenanceBudgetMg p"
  by (auto simp: validInput_def maintenanceBudgetMg_def split: option.splits)

lemma validInput_dose: 
  assumes "validInput p" shows "0 \<le> resolvedLoadingDoseMg p"
proof (cases "loadingDoseMg p")
  case None
  have "0 < vc (eleveldParameters p)"
    using assms eleveldParameters_pos [of p] by (simp add: validInput_def)
  then have "0 \<le> max (targetCe p - startCe p) 0 * vc (eleveldParameters p)" by simp
  with None show ?thesis by (simp add: resolvedLoadingDoseMg_def calculateLoadingDose_def Let_def)
next
  case (Some d)
  with assms show ?thesis by (simp add: resolvedLoadingDoseMg_def validInput_def)
qed

lemma bolus_delivers:
  assumes m: "0 < maxRateMgSec p" and d: "0 \<le> resolvedLoadingDoseMg p"
    and D: "0 < resolvedLoadingDurationSec p"
  shows "0 \<le> bolusRateMgSec p"
    and "bolusRateMgSec p * resolvedLoadingDurationSec p = resolvedLoadingDoseMg p"
proof -
  show "0 \<le> bolusRateMgSec p"
    using m d D unfolding bolusRateMgSec_def resolvedLoadingDurationSec_def
    by (auto split: if_splits)
  show "bolusRateMgSec p * resolvedLoadingDurationSec p = resolvedLoadingDoseMg p"
    using m d D unfolding bolusRateMgSec_def resolvedLoadingDurationSec_def
    by (auto split: if_splits)
qed

lemma infusionRate_bounds:
  assumes i: "0 < interval params" and m: "0 \<le> maxRateMgSec params"
  shows "0 \<le> infusionRateMgSec p params s"
    and "0 < remainingMg s \<Longrightarrow> infusionRateMgSec p params s * interval params \<le> remainingMg s"
    and "remainingMg s \<le> 0 \<Longrightarrow> infusionRateMgSec p params s = 0"
proof -
  show "0 \<le> infusionRateMgSec p params s"
    using i m unfolding infusionRateMgSec_def Let_def by (auto simp: min_def)
  show "infusionRateMgSec p params s = 0" if "remainingMg s \<le> 0"
    using that unfolding infusionRateMgSec_def by simp
  show "infusionRateMgSec p params s * interval params \<le> remainingMg s" if r: "0 < remainingMg s"
  proof -
    have "infusionRateMgSec p params s \<le> remainingMg s / interval params"
      using r unfolding infusionRateMgSec_def Let_def by (auto simp: min_def)
    then show ?thesis using i by (simp add: pos_le_divide_eq)
  qed
qed

lemma loadingLoop_cumulative:
  assumes run: "loadingLoop p params b D s = Some s'"
    and i: "0 < interval params"
    and b: "0 < D \<Longrightarrow> 0 \<le> b"
    and s0: "elapsed s = 0" "cumulative s = 0" "steps s = []"
  shows "sorted (map cumulativeDoseMg (steps s'))
       \<and> (\<forall>x\<in>set (steps s'). cumulativeDoseMg x \<le> cumulative s')
       \<and> cumulative s' = b * elapsed s' \<and> 0 \<le> elapsed s' \<and> (elapsed s' \<le> D \<or> elapsed s' = 0)
       \<and> remainingMg s' = remainingMg s"
proof -
  define J where "J = (\<lambda>t::SimState. sorted (map cumulativeDoseMg (steps t))
       \<and> (\<forall>x\<in>set (steps t). cumulativeDoseMg x \<le> cumulative t)
       \<and> cumulative t = b * elapsed t \<and> 0 \<le> elapsed t \<and> (elapsed t \<le> D \<or> elapsed t = 0)
       \<and> remainingMg t = remainingMg s)"
  have J0: "J s" unfolding J_def using s0 by simp
  have Jstep: "J (loadingTick p params b D t)" if Jt: "J t" and lt: "elapsed t < D" for t
  proof -
    let ?dt = "min (interval params) (D - elapsed t)"
    have dt: "0 < ?dt" using i lt by simp
    have e0: "0 \<le> elapsed t" using Jt unfolding J_def by simp
    then have "0 < D" using lt by simp
    then have b0: "0 \<le> b" by (rule b)
    have inc: "0 \<le> b * ?dt" using b0 dt by (intro mult_nonneg_nonneg) simp_all
    have cum: "cumulative (loadingTick p params b D t) = b * (elapsed t + ?dt)"
      using Jt unfolding J_def by (simp add: loadingTick_cumulative distrib_left)
    have le: "\<forall>x\<in>set (steps t). cumulativeDoseMg x \<le> cumulative t + b * ?dt"
      using Jt inc unfolding J_def by fastforce
    have "sorted (map cumulativeDoseMg (steps t) @ [cumulative t + b * ?dt])"
      using Jt le unfolding J_def by (simp add: sorted_append)
    then have srt: "sorted (map cumulativeDoseMg (steps (loadingTick p params b D t)))"
      by (simp add: loadingTick_steps loadingTick_cumulative)
    have all: "\<forall>x\<in>set (steps (loadingTick p params b D t)).
        cumulativeDoseMg x \<le> cumulative (loadingTick p params b D t)"
      using le by (simp add: loadingTick_steps loadingTick_cumulative)
    have el: "0 \<le> elapsed (loadingTick p params b D t)" "elapsed (loadingTick p params b D t) \<le> D"
      using e0 dt lt by (simp_all add: loadingTick_elapsed)
    have rem: "remainingMg (loadingTick p params b D t) = remainingMg s"
      using Jt unfolding J_def by (simp add: loadingTick_remainingMg)
    show ?thesis unfolding J_def using srt all cum el rem
      by (simp add: loadingTick_elapsed)
  qed
  from loadingLoop_invariant [OF run, where J = J, OF J0 Jstep]
  show ?thesis unfolding J_def by blast
qed

lemma maintenanceLoop_cumulative:
  assumes run: "maintenanceLoop p params s = Some s'"
    and i: "0 < interval params" and m: "0 \<le> maxRateMgSec params"
    and s0: "sorted (map cumulativeDoseMg (steps s))"
       "\<forall>x\<in>set (steps s). cumulativeDoseMg x \<le> cumulative s"
       "0 \<le> remainingMg s" "cumulative s + remainingMg s \<le> B"
  shows "sorted (map cumulativeDoseMg (steps s'))
       \<and> (\<forall>x\<in>set (steps s'). cumulativeDoseMg x \<le> B)"
proof -
  define J where "J = (\<lambda>t::SimState. sorted (map cumulativeDoseMg (steps t))
       \<and> (\<forall>x\<in>set (steps t). cumulativeDoseMg x \<le> cumulative t)
       \<and> 0 \<le> remainingMg t \<and> cumulative t + remainingMg t \<le> B)"
  have J0: "J s" unfolding J_def using s0 by simp
  have Jstep: "J (maintenanceTick p params t)" if Jt: "J t" for t
  proof -
    let ?r = "infusionRateMgSec p params t"
    have r0: "0 \<le> ?r" by (rule infusionRate_bounds(1) [OF i m])
    have inc: "0 \<le> ?r * interval params" using r0 i by simp
    have le: "\<forall>x\<in>set (steps t). cumulativeDoseMg x \<le> cumulative t + ?r * interval params"
      using Jt inc unfolding J_def by fastforce
    have "sorted (map cumulativeDoseMg (steps t) @ [cumulative t + ?r * interval params])"
      using Jt le unfolding J_def by (simp add: sorted_append)
    then have srt: "sorted (map cumulativeDoseMg (steps (maintenanceTick p params t)))"
      by (simp add: maintenanceTick_steps maintenanceTick_cumulative)
    have all: "\<forall>x\<in>set (steps (maintenanceTick p params t)).
        cumulativeDoseMg x \<le> cumulative (maintenanceTick p params t)"
      using le by (simp add: maintenanceTick_steps maintenanceTick_cumulative)
    have rem: "0 \<le> remainingMg (maintenanceTick p params t)
        \<and> cumulative (maintenanceTick p params t) + remainingMg (maintenanceTick p params t) \<le> B"
    proof (cases "0 < remainingMg t")
      case True
      from infusionRate_bounds(2) [OF i m True, of p] Jt True show ?thesis
        unfolding J_def by (simp add: maintenanceTick_remainingMg maintenanceTick_cumulative)
    next
      case False
      then have "?r = 0" by (intro infusionRate_bounds(3) [OF i m]) simp
      with False Jt show ?thesis
        unfolding J_def by (simp add: maintenanceTick_remainingMg maintenanceTick_cumulative)
    qed
    show ?thesis unfolding J_def using srt all rem by simp
  qed
  from maintenanceLoop_invariant [OF run, where J = J, OF J0 Jstep]
  have "J s'" by simp
  then show ?thesis unfolding J_def by fastforce
qed

text \<open>
  In exact arithmetic, for every valid input \<open>cumulativeDoseMg\<close> is non-decreasing
  along the emitted steps and never exceeds the resolved loading dose plus the
  maintenance budget \<open>volumeMl * concentrationMgPerMl\<close>. The updates of the two loops
  keep the bound; what breaks it in double precision is overflow, see the subsection on
  the cumulative dose in double precision.
\<close>

theorem cumulative_dose_monotone_bounded:
  assumes v: "validInput params" and run: "eleveldProtocol params = Some xs"
  shows "sorted (map cumulativeDoseMg xs)
       \<and> (\<forall>x\<in>set xs. cumulativeDoseMg x \<le> resolvedLoadingDoseMg params + maintenanceBudgetMg params)"
proof -
  from run obtain s1 s2 where
    l: "loadingLoop (eleveldParameters params) params (bolusRateMgSec params)
       (resolvedLoadingDurationSec params) (initialState params) = Some s1"
    and m: "maintenanceLoop (eleveldParameters params) params s1 = Some s2"
    and xs: "xs = steps s2"
    by (rule eleveldProtocol_SomeD)
  note i = validInput_interval [OF v] and mr = validInput_maxRate [OF v]
    and d = validInput_dose [OF v] and bud = validInput_budget [OF v]
  let ?b = "bolusRateMgSec params" and ?D = "resolvedLoadingDurationSec params"
  have L: "sorted (map cumulativeDoseMg (steps s1))
       \<and> (\<forall>x\<in>set (steps s1). cumulativeDoseMg x \<le> cumulative s1)
       \<and> cumulative s1 = ?b * elapsed s1 \<and> 0 \<le> elapsed s1 \<and> (elapsed s1 \<le> ?D \<or> elapsed s1 = 0)
       \<and> remainingMg s1 = remainingMg (initialState params)"
    by (rule loadingLoop_cumulative [OF l i bolus_delivers(1) [OF mr d]])
       (simp_all add: initialState_simps)
  have cum1: "cumulative s1 \<le> resolvedLoadingDoseMg params"
  proof (cases "elapsed s1 = 0")
    case True
    with L d show ?thesis by simp
  next
    case False
    with L have e: "0 < elapsed s1" "elapsed s1 \<le> ?D" by auto
    then have D: "0 < ?D" by simp
    have "?b * elapsed s1 \<le> ?b * ?D"
      using e bolus_delivers(1) [OF mr d D] by (intro mult_left_mono) simp_all
    with L bolus_delivers(2) [OF mr d D] show ?thesis by simp
  qed
  have rem1: "remainingMg s1 = maintenanceBudgetMg params"
    using L by (simp add: initialState_simps maintenanceBudgetMg_def)
  have "sorted (map cumulativeDoseMg (steps s2))
       \<and> (\<forall>x\<in>set (steps s2). cumulativeDoseMg x \<le> resolvedLoadingDoseMg params + maintenanceBudgetMg params)"
  proof (rule maintenanceLoop_cumulative [OF m i])
    show "0 \<le> maxRateMgSec params" using mr by simp
    show "sorted (map cumulativeDoseMg (steps s1))" using L by blast
    show "\<forall>x\<in>set (steps s1). cumulativeDoseMg x \<le> cumulative s1" using L by blast
    show "0 \<le> remainingMg s1" using rem1 bud by simp
    show "cumulative s1 + remainingMg s1 \<le> resolvedLoadingDoseMg params + maintenanceBudgetMg params"
      using cum1 rem1 by simp
  qed
  with xs show ?thesis by simp
qed

subsection \<open>C7: the time field\<close>



lemma maintenanceLoop_clock:
  assumes run: "maintenanceLoop p params s = Some s'"
  shows "\<exists>R. steps s' = steps s @ R \<and> (\<forall>x\<in>set R. phase x \<noteq> Loading)
       \<and> (\<forall>j<length R. time (R ! j) = Math_round (elapsed s + real (j + 1) * interval params))"
proof -
  let ?i = "interval params"
  define J where "J = (\<lambda>t::SimState. \<exists>R. steps t = steps s @ R \<and> (\<forall>x\<in>set R. phase x \<noteq> Loading)
       \<and> elapsed t = elapsed s + real (length R) * ?i
       \<and> (\<forall>j<length R. time (R ! j) = Math_round (elapsed s + real (j + 1) * ?i)))"
  have J0: "J s" unfolding J_def by (intro exI [of _ "[]"]) simp
  have Jstep: "J (maintenanceTick p params t)" if Jt: "J t" for t
  proof -
    let ?t' = "maintenanceTick p params t"
    from Jt obtain R where R: "steps t = steps s @ R" "\<forall>x\<in>set R. phase x \<noteq> Loading"
      "elapsed t = elapsed s + real (length R) * ?i"
      "\<forall>j<length R. time (R ! j) = Math_round (elapsed s + real (j + 1) * ?i)"
      unfolding J_def by blast
    define x where "x = last (steps ?t')"
    have st: "steps ?t' = steps s @ (R @ [x])"
      unfolding x_def using R(1) by (simp add: maintenanceTick_steps)
    have px: "phase x \<noteq> Loading" unfolding x_def by (simp add: maintenanceTick_steps)
    have tx: "time x = Math_round (elapsed s + real (length R + 1) * ?i)"
      unfolding x_def using R(3) by (simp add: maintenanceTick_steps maintenanceTick_elapsed algebra_simps)
    have el: "elapsed ?t' = elapsed s + real (length (R @ [x])) * ?i"
      using R(3) by (simp add: maintenanceTick_elapsed algebra_simps)
    have tm: "\<forall>j<length (R @ [x]). time ((R @ [x]) ! j) = Math_round (elapsed s + real (j + 1) * ?i)"
      using R(4) tx by (auto simp: nth_append less_Suc_eq)
    show ?thesis unfolding J_def
      using st px R(2) el tm by (intro exI [of _ "R @ [x]"]) auto
  qed
  from maintenanceLoop_invariant [OF run, where J = J, OF J0 Jstep]
  show ?thesis unfolding J_def by blast
qed









subsection \<open>C9: the first emitted step\<close>

lemma resolved_no_bolus:
  assumes "startCe params = targetCe params" "loadingDoseMg params = None" "loadingDurationSec params = None"
  shows "resolvedLoadingDoseMg params = 0" "resolvedLoadingDurationSec params = 0"
proof -
  show d: "resolvedLoadingDoseMg params = 0"
    using assms by (simp add: resolvedLoadingDoseMg_def calculateLoadingDose_def Let_def)
  have "requestedLoadingDurationSec params = 0"
    using assms by (simp add: requestedLoadingDurationSec_def calculateLoadingDose_def Let_def)
  with d show "resolvedLoadingDurationSec params = 0"
    by (simp add: resolvedLoadingDurationSec_def bolusExceeds_def)
qed

lemma maintenanceLoop_hd:
  assumes run: "maintenanceLoop p params s = Some s'" and ne: "steps s \<noteq> []"
  shows "steps s' \<noteq> [] \<and> hd (steps s') = hd (steps s)"
  using maintenanceLoop_invariant [OF run,
      where J = "\<lambda>t::SimState. steps t \<noteq> [] \<and> hd (steps t) = hd (steps s)"] ne
  by (simp add: maintenanceTick_steps)

lemma loadingLoop_hd:
  assumes run: "loadingLoop p params b D s = Some s'" and ne: "steps s \<noteq> []"
  shows "steps s' \<noteq> [] \<and> hd (steps s') = hd (steps s)"
  using loadingLoop_invariant [OF run,
      where J = "\<lambda>t::SimState. steps t \<noteq> [] \<and> hd (steps t) = hd (steps s)"] ne
  by (simp add: loadingTick_steps)

lemma maintenanceLoop_first:
  assumes run: "maintenanceLoop p params s = Some s'" and e: "steps s = []" and ne: "steps s' \<noteq> []"
  shows "hd (steps s') = last (steps (maintenanceTick p params s))"
proof -
  let ?t = "maintenanceTick p params s"
  have st: "steps ?t \<noteq> []" "hd (steps ?t) = last (steps ?t)"
    using e by (simp_all add: maintenanceTick_steps)
  from run have "s' = s \<or> s' = ?t \<or> maintenanceLoop p params ?t = Some s'"
    by (subst (asm) maintenanceLoop.simps) (auto split: if_splits)
  then show ?thesis
  proof (elim disjE)
    assume "s' = s" with e ne show ?thesis by simp
  next
    assume "s' = ?t" with st show ?thesis by simp
  next
    assume "maintenanceLoop p params ?t = Some s'"
    from maintenanceLoop_hd [OF this st(1)] st(2) show ?thesis by simp
  qed
qed

text \<open>
  Claim C9, as amended. The first emitted step is tagged loading whenever the resolved
  loading duration is positive. Whenever the starting concentration equals the target
  and the caller gives no loading override, the loading dose is zero, the loading
  phase has zero length and no step is tagged loading; the first emitted step, if
  there is one, has as its time the configured interval rounded to whole seconds, is
  tagged decay when there is no maintenance budget, and is tagged maintenance when
  budget remains after the first pass.
\<close>

theorem first_step_phase:
  assumes run: "eleveldProtocol params = Some xs"
  shows "(0 < resolvedLoadingDurationSec params \<longrightarrow> xs \<noteq> [] \<and> phase (hd xs) = Loading)
    \<and> (startCe params = targetCe params \<and> loadingDoseMg params = None \<and> loadingDurationSec params = None
        \<longrightarrow> resolvedLoadingDoseMg params = 0 \<and> resolvedLoadingDurationSec params = 0
          \<and> (\<forall>x\<in>set xs. phase x \<noteq> Loading)
          \<and> (xs \<noteq> [] \<longrightarrow> time (hd xs) = Math_round (interval params)
                \<and> (maintenanceBudgetMg params \<le> 0 \<longrightarrow> phase (hd xs) = Decay)
                \<and> (0 < remainingMg (maintenanceTick (eleveldParameters params) params (initialState params))
                      \<longrightarrow> phase (hd xs) = Maintenance)))"
proof -
  let ?p = "eleveldParameters params" and ?D = "resolvedLoadingDurationSec params"
  let ?s0 = "initialState params"
  from run obtain s1 s2 where
    l: "loadingLoop ?p params (bolusRateMgSec params) ?D ?s0 = Some s1"
    and m: "maintenanceLoop ?p params s1 = Some s2"
    and xs: "xs = steps s2"
    by (rule eleveldProtocol_SomeD)
  have part1: "xs \<noteq> [] \<and> phase (hd xs) = Loading" if D: "0 < ?D"
  proof -
    let ?t = "loadingTick ?p params (bolusRateMgSec params) ?D ?s0"
    have "loadingLoop ?p params (bolusRateMgSec params) ?D ?t = Some s1"
      using l D by (subst (asm) loadingLoop.simps) (simp add: initialState_simps)
    moreover have t: "steps ?t \<noteq> []" "phase (hd (steps ?t)) = Loading"
      by (simp_all add: loadingTick_steps initialState_simps)
    ultimately have "steps s1 \<noteq> [] \<and> hd (steps s1) = hd (steps ?t)"
      by (intro loadingLoop_hd)
    with maintenanceLoop_hd [OF m] t xs show ?thesis by simp
  qed
  have part2: "resolvedLoadingDoseMg params = 0 \<and> ?D = 0
          \<and> (\<forall>x\<in>set xs. phase x \<noteq> Loading)
          \<and> (xs \<noteq> [] \<longrightarrow> time (hd xs) = Math_round (interval params)
                \<and> (maintenanceBudgetMg params \<le> 0 \<longrightarrow> phase (hd xs) = Decay)
                \<and> (0 < remainingMg (maintenanceTick ?p params ?s0) \<longrightarrow> phase (hd xs) = Maintenance))"
    if eq: "startCe params = targetCe params" "loadingDoseMg params = None" "loadingDurationSec params = None"
  proof -
    note z = resolved_no_bolus [OF eq]
    have s1: "s1 = ?s0"
      using l z by (subst (asm) loadingLoop.simps) (simp add: initialState_simps)
    from maintenanceLoop_clock [OF m] obtain R where
      R: "steps s2 = steps s1 @ R" "\<forall>x\<in>set R. phase x \<noteq> Loading" by blast
    then have nl: "\<forall>x\<in>set xs. phase x \<noteq> Loading"
      using xs s1 by (simp add: initialState_simps)
    have hd: "time (hd xs) = Math_round (interval params)
                \<and> (maintenanceBudgetMg params \<le> 0 \<longrightarrow> phase (hd xs) = Decay)
                \<and> (0 < remainingMg (maintenanceTick ?p params ?s0) \<longrightarrow> phase (hd xs) = Maintenance)"
      if ne: "xs \<noteq> []"
    proof -
      have h: "hd xs = last (steps (maintenanceTick ?p params ?s0))"
        using maintenanceLoop_first [OF m] s1 xs ne by (simp add: initialState_simps)
      have "maintenanceBudgetMg params \<le> 0 \<Longrightarrow> \<not> 0 < remainingMg (maintenanceTick ?p params ?s0)"
        by (simp add: maintenanceTick_remainingMg initialState_simps maintenanceBudgetMg_def)
      then show ?thesis unfolding h
        by (auto simp: maintenanceTick_steps maintenanceTick_elapsed initialState_simps)
    qed
    from z nl hd show ?thesis by blast
  qed
  from part1 part2 show ?thesis by blast
qed

subsection \<open>Soundness of the interval evaluator\<close>

lemma scale_pos: "0 < real_of_int scale"
  by (simp add: scale_def)

lemma inI_pair: "inI x (a, b) = (real_of_int a \<le> x * real_of_int scale \<and> x * real_of_int scale \<le> real_of_int b)"
  by (simp add: inI_def)

lemma iadd_sound: "inI x A \<Longrightarrow> inI y B \<Longrightarrow> inI (x + y) (iadd A B)"
  by (cases A; cases B) (simp add: inI_pair distrib_right)

lemma isub_sound: "inI x A \<Longrightarrow> inI y B \<Longrightarrow> inI (x - y) (isub A B)"
  by (cases A; cases B) (simp add: inI_pair left_diff_distrib)

lemma imax0_sound:
  assumes "inI x A"
  shows "inI (if x < 0 then 0 else x) (imax0 A)"
proof -
  obtain a b where A: "A = (a, b)" by (cases A)
  have "(x < 0) = (x * real_of_int scale < 0)"
    using scale_pos by (simp add: mult_less_0_iff)
  then show ?thesis using assms unfolding A
    by (auto simp: inI_pair max_def)
qed

lemma imin_sound:
  assumes "inI x A" "inI y B"
  shows "inI (min x y) (imin A B)"
proof -
  obtain a b where A: "A = (a, b)" by (cases A)
  obtain c d where B: "B = (c, d)" by (cases B)
  have "min x y * real_of_int scale = min (x * real_of_int scale) (y * real_of_int scale)"
    using scale_pos by (simp add: min_def)
  then show ?thesis using assms unfolding A B
    by (simp add: inI_pair of_int_min) (auto simp: min_def)
qed

lemma dn_le: "real_of_int (dn m) \<le> real_of_int m / real_of_int scale"
proof -
  have "real_of_int (dn m) = real_of_int \<lfloor>real_of_int m / real_of_int scale\<rfloor>"
    unfolding dn_def by (simp add: floor_divide_of_int_eq)
  then show ?thesis by simp
qed

lemma up_ge: "real_of_int m / real_of_int scale \<le> real_of_int (up m)"
proof -
  have "real_of_int (dn (- m)) \<le> real_of_int (- m) / real_of_int scale" by (rule dn_le)
  then show ?thesis unfolding up_def dn_def by simp
qed

lemma mult_between_aux:
  fixes a b x y :: real
  assumes "a \<le> x" "x \<le> b"
  shows "min (a * y) (b * y) \<le> x * y" and "x * y \<le> max (a * y) (b * y)"
proof -
  show "min (a * y) (b * y) \<le> x * y"
  proof (cases "0 \<le> y")
    case True
    then have "a * y \<le> x * y" using assms by (intro mult_right_mono)
    then show ?thesis by simp
  next
    case False
    then have "b * y \<le> x * y" using assms by (intro mult_right_mono_neg) simp_all
    then show ?thesis by simp
  qed
  show "x * y \<le> max (a * y) (b * y)"
  proof (cases "0 \<le> y")
    case True
    then have "x * y \<le> b * y" using assms by (intro mult_right_mono)
    then show ?thesis by simp
  next
    case False
    then have "x * y \<le> a * y" using assms by (intro mult_right_mono_neg) simp_all
    then show ?thesis by simp
  qed
qed

lemma mult_between:
  fixes a b c d x y :: real
  assumes x: "a \<le> x" "x \<le> b" and y: "c \<le> y" "y \<le> d"
  shows "min (min (a * c) (a * d)) (min (b * c) (b * d)) \<le> x * y"
    and "x * y \<le> max (max (a * c) (a * d)) (max (b * c) (b * d))"
proof -
  have 1: "min (a * y) (b * y) \<le> x * y" "x * y \<le> max (a * y) (b * y)"
    using mult_between_aux [OF x] by simp_all
  have 2: "min (c * a) (d * a) \<le> y * a" "y * a \<le> max (c * a) (d * a)"
    using mult_between_aux [OF y] by simp_all
  have 3: "min (c * b) (d * b) \<le> y * b" "y * b \<le> max (c * b) (d * b)"
    using mult_between_aux [OF y] by simp_all
  show "min (min (a * c) (a * d)) (min (b * c) (b * d)) \<le> x * y"
    using 1(1) 2(1) 3(1) by (simp add: mult.commute min_le_iff_disj) linarith
  show "x * y \<le> max (max (a * c) (a * d)) (max (b * c) (b * d))"
    using 1(2) 2(2) 3(2) by (simp add: mult.commute le_max_iff_disj) linarith
qed

lemma imul_sound:
  assumes "inI x A" "inI y B"
  shows "inI (x * y) (imul A B)"
proof -
  obtain a b where A: "A = (a, b)" by (cases A)
  obtain c d where B: "B = (c, d)" by (cases B)
  let ?s = "real_of_int scale"
  let ?X = "x * ?s" and ?Y = "y * ?s"
  from assms have X: "real_of_int a \<le> ?X" "?X \<le> real_of_int b"
    and Y: "real_of_int c \<le> ?Y" "?Y \<le> real_of_int d"
    by (simp_all add: A B inI_pair)
  let ?m = "min (min (a * c) (a * d)) (min (b * c) (b * d))"
  let ?M = "max (max (a * c) (a * d)) (max (b * c) (b * d))"
  have m: "real_of_int ?m \<le> ?X * ?Y"
    using mult_between(1) [OF X Y] by (simp add: of_int_min)
  have M: "?X * ?Y \<le> real_of_int ?M"
    using mult_between(2) [OF X Y] by (simp add: of_int_max)
  have s0: "0 \<le> ?s" using scale_pos by simp
  have eq: "x * y * ?s = ?X * ?Y / ?s" using scale_pos by simp
  have "real_of_int (dn ?m) \<le> real_of_int ?m / ?s" by (rule dn_le)
  also have "\<dots> \<le> ?X * ?Y / ?s" by (rule divide_right_mono [OF m s0])
  finally have lo: "real_of_int (dn ?m) \<le> x * y * ?s" unfolding eq .
  have "?X * ?Y / ?s \<le> real_of_int ?M / ?s" by (rule divide_right_mono [OF M s0])
  also have "\<dots> \<le> real_of_int (up ?M)" by (rule up_ge)
  finally have hi: "x * y * ?s \<le> real_of_int (up ?M)" unfolding eq .
  show ?thesis using lo hi by (simp add: A B inI_pair)
qed

lemma inI_dt: "x * real_of_int scale = real_of_int c \<Longrightarrow> inI x (c, c)"
  by (simp add: inI_pair)

lemma aodeC1_sound:
  assumes ap: "relParams ap p params"
    and r: "inI r ar" and dt: "inI dt adt"
    and y: "inI y1 ay1" "inI y2 ay2" "inI y3 ay3"
  shows "inI (y1 + (r / vc p - (k10 p + k12 p + k13 p) * y1 + k21 p * y2 + k31 p * y3) * dt)
             (aodeC1 ap ar adt ay1 ay2 ay3)"
proof -
  have e: "r / vc p = r * (1 / vc p)" by simp
  show ?thesis unfolding aodeC1_def e
    using ap r dt y unfolding relParams_def
    by (intro iadd_sound imul_sound isub_sound) simp_all
qed

lemma aodeC2_sound:
  assumes ap: "relParams ap p params" and dt: "inI dt adt"
    and y: "inI y1 ay1" "inI y2 ay2"
  shows "inI (y2 + (k12 p * y1 - k21 p * y2) * dt) (aodeC2 ap adt ay1 ay2)"
  unfolding aodeC2_def using ap dt y unfolding relParams_def
  by (intro iadd_sound imul_sound isub_sound) simp_all

lemma aodeC3_sound:
  assumes ap: "relParams ap p params" and dt: "inI dt adt"
    and y: "inI y1 ay1" "inI y3 ay3"
  shows "inI (y3 + (k13 p * y1 - k31 p * y3) * dt) (aodeC3 ap adt ay1 ay3)"
  unfolding aodeC3_def using ap dt y unfolding relParams_def
  by (intro iadd_sound imul_sound isub_sound) simp_all

lemma aodeCe_sound:
  assumes ap: "relParams ap p params" and dt: "inI dt adt"
    and y: "inI y1 ay1" "inI ye aye"
  shows "inI (ye + ke0 p * (y1 - ye) * dt) (aodeCe ap adt ay1 aye)"
  unfolding aodeCe_def using ap dt y unfolding relParams_def
  by (intro iadd_sound imul_sound isub_sound) simp_all

lemma around_sound:
  assumes "t * real_of_int scale = real_of_int el"
  shows "Math_round t = real_of_int (around el)"
proof -
  have s: "0 < real_of_int scale" by (rule scale_pos)
  have "t = real_of_int el / real_of_int scale" using assms s by (simp add: field_simps)
  then have "t + 1 / 2 = real_of_int (2 * el + scale) / real_of_int (2 * scale)"
    using s by (simp add: field_simps)
  then have "\<lfloor>t + 1 / 2\<rfloor> = (2 * el + scale) div (2 * scale)"
    by (simp only: floor_divide_of_int_eq)
  then show ?thesis unfolding Math_round_def around_def by simp
qed

lemma anext_sound:
  assumes ap: "relParams ap p params" and st: "relState s a"
    and r: "inI r ar" and dt: "dt * real_of_int scale = real_of_int dtv"
    and rem: "inI rem' arem'" and kg: "inI perKg aperKg"
    and s': "C1 s' = C1 s + (r / vc p - (k10 p + k12 p + k13 p) * C1 s + k21 p * C2 s + k31 p * C3 s) * dt"
      "C2 s' = C2 s + (k12 p * C1 s - k21 p * C2 s) * dt"
      "C3 s' = C3 s + (k13 p * C1 s - k31 p * C3 s) * dt"
      "Ce s' = Ce s + ke0 p * (C1 s - Ce s) * dt"
      "cumulative s' = cumulative s + r * dt"
      "elapsed s' = elapsed s + dt"
      "remainingMg s' = rem'"
      "steps s' = steps s @ [\<lparr>time = Math_round (elapsed s'), rate = perKg, ce = Ce s',
                                cumulativeDoseMg = cumulative s', phase = ph\<rparr>]"
  shows "relState s' (anext ap ar arem' dtv aperKg ph a)"
proof -
  obtain y1 y2 y3 ye cum rm el xs where a: "a = AState y1 y2 y3 ye cum rm el xs" by (cases a)
  from st have i: "inI (C1 s) y1" "inI (C2 s) y2" "inI (C3 s) y3" "inI (Ce s) ye"
    "inI (cumulative s) cum" "elapsed s * real_of_int scale = real_of_int el"
    "list_all2 relStep (steps s) xs"
    unfolding relState_def a by simp_all
  have d: "inI dt (dtv, dtv)" by (rule inI_dt [OF dt])
  have c1: "inI (C1 s') (aodeC1 ap ar (dtv, dtv) y1 y2 y3)"
    unfolding s' by (rule aodeC1_sound [OF ap r d i(1,2,3)])
  have c2: "inI (C2 s') (aodeC2 ap (dtv, dtv) y1 y2)"
    unfolding s' by (rule aodeC2_sound [OF ap d i(1,2)])
  have c3: "inI (C3 s') (aodeC3 ap (dtv, dtv) y1 y3)"
    unfolding s' by (rule aodeC3_sound [OF ap d i(1,3)])
  have ce: "inI (Ce s') (aodeCe ap (dtv, dtv) y1 ye)"
    unfolding s' by (rule aodeCe_sound [OF ap d i(1,4)])
  have cu: "inI (cumulative s') (iadd cum (imul ar (dtv, dtv)))"
    unfolding s' by (intro iadd_sound imul_sound i r d)
  have el: "elapsed s' * real_of_int scale = real_of_int (el + dtv)"
    unfolding s' using i(6) dt by (simp add: distrib_right)
  have tm: "Math_round (elapsed s') = real_of_int (around (el + dtv))"
    by (rule around_sound [OF el])
  have stp: "relStep \<lparr>time = Math_round (elapsed s'), rate = perKg, ce = Ce s',
                       cumulativeDoseMg = cumulative s', phase = ph\<rparr>
               (AStep (around (el + dtv)) aperKg (aodeCe ap (dtv, dtv) y1 ye)
                  (iadd cum (imul ar (dtv, dtv))) ph)"
    unfolding relStep_def using tm kg ce cu by simp
  have l: "list_all2 relStep (steps s')
      (xs @ [AStep (around (el + dtv)) aperKg (aodeCe ap (dtv, dtv) y1 ye)
                (iadd cum (imul ar (dtv, dtv))) ph])"
    unfolding s'(8) using i(7) stp by (intro list_all2_appendI) simp_all
  show ?thesis unfolding a anext.simps relState_def
    using c1 c2 c3 ce cu el l rem s'(7) by simp
qed

lemma perKg_eq: "(r * 60) / w * 1000 = r * (60000 / w)" for r w :: real
  by simp

lemma loadingTick_sound:
  assumes ap: "relParams ap p params" and st: "relState s a"
    and b: "inI b ab" and D: "D * real_of_int scale = real_of_int Dv"
  shows "relState (loadingTick p params b D s) (aloadingTick ap ab Dv a)"
proof -
  let ?dt = "min (interval params) (D - elapsed s)"
  have i: "interval params * real_of_int scale = real_of_int (a_dt ap)"
    using ap unfolding relParams_def by simp
  have e: "elapsed s * real_of_int scale = real_of_int (aEl a)"
    using st unfolding relState_def by simp
  have "?dt * real_of_int scale = min (interval params * real_of_int scale) ((D - elapsed s) * real_of_int scale)"
    using scale_pos by (simp add: min_def)
  then have dt: "?dt * real_of_int scale = real_of_int (min (a_dt ap) (Dv - aEl a))"
    using i e D by (simp add: left_diff_distrib of_int_min)
  have kg: "inI ((b * 60) / weightKg params * 1000) (imul ab (a_kg ap))"
    unfolding perKg_eq using ap b unfolding relParams_def by (intro imul_sound) simp_all
  have rm: "inI (remainingMg s) (aRem a)" using st unfolding relState_def by simp
  show ?thesis unfolding aloadingTick_def
    by (rule anext_sound [OF ap st b dt _ kg, where rem' = "remainingMg s"])
       (simp_all add: rm loadingTick_def Let_def)
qed

lemma loadingLoop_sound:
  assumes ap: "relParams ap p params"
    and b: "inI b ab" and D: "D * real_of_int scale = real_of_int Dv"
  shows "relState s a \<Longrightarrow> aloadingLoop n ap ab Dv a = Some a'
      \<Longrightarrow> \<exists>s'. loadingLoop p params b D s = Some s' \<and> relState s' a'"
proof (induction n arbitrary: s a)
  case 0
  then show ?case by simp
next
  case (Suc n)
  have e: "elapsed s * real_of_int scale = real_of_int (aEl a)"
    using Suc.prems(1) unfolding relState_def by simp
  have "(elapsed s < D) = (elapsed s * real_of_int scale < D * real_of_int scale)"
    using scale_pos by simp
  then have c: "(elapsed s < D) = (aEl a < Dv)" unfolding e D by simp
  show ?case
  proof (cases "aEl a < Dv")
    case True
    with Suc.prems(2) have "aloadingLoop n ap ab Dv (aloadingTick ap ab Dv a) = Some a'" by simp
    from Suc.IH [OF loadingTick_sound [OF ap Suc.prems(1) b D] this]
    obtain s' where "loadingLoop p params b D (loadingTick p params b D s) = Some s'"
      "relState s' a'" by blast
    then show ?thesis using True c by (subst loadingLoop.simps) simp
  next
    case False
    with Suc.prems have "a' = a" by simp
    then show ?thesis using False c Suc.prems(1) by (subst loadingLoop.simps) simp
  qed
qed

lemma inI_pos: "inI x A \<Longrightarrow> 0 < fst A \<Longrightarrow> 0 < x"
proof -
  assume "inI x A" "0 < fst A"
  then have "0 < x * real_of_int scale" unfolding inI_def by simp
  then show ?thesis using scale_pos by (simp add: zero_less_mult_iff)
qed

lemma inI_nonpos: "inI x A \<Longrightarrow> snd A \<le> 0 \<Longrightarrow> x \<le> 0"
proof -
  assume "inI x A" "snd A \<le> 0"
  then have "x * real_of_int scale \<le> 0" unfolding inI_def by simp
  then show ?thesis using scale_pos by (simp add: mult_le_0_iff)
qed

lemma inI_gt: "inI x A \<Longrightarrow> c < fst A \<Longrightarrow> real_of_int c / real_of_int scale < x"
proof -
  assume "inI x A" "c < fst A"
  then have "real_of_int c < x * real_of_int scale" unfolding inI_def by simp
  then show ?thesis using scale_pos by (simp add: pos_divide_less_eq)
qed

lemma inI_le: "inI x A \<Longrightarrow> snd A \<le> c \<Longrightarrow> x \<le> real_of_int c / real_of_int scale"
proof -
  assume "inI x A" "snd A \<le> c"
  then have "x * real_of_int scale \<le> real_of_int c" unfolding inI_def by simp
  then show ?thesis using scale_pos by (simp add: pos_le_divide_eq)
qed

lemma threshold_real: "real_of_int threshold / real_of_int scale = 0.01"
  by (simp add: threshold_def scale_def)

lemma inI_zero: "inI 0 (0, 0)"
  by (simp add: inI_pair)

lemma infusionRate_alt:
  assumes "0 < remainingMg s"
  shows "infusionRateMgSec p params s = min (desiredRate p params s) (remainingMg s / interval params)"
  using assms unfolding infusionRateMgSec_def desiredRate_def Let_def
  by (simp add: min_def)

lemma arate0_sound:
  assumes ap: "relParams ap p params" and e: "inI (Ce s) aye"
  shows "inI (desiredRate p params s) (arate0 ap aye)"
proof -
  have d: "(targetCe params * cl1 p + (targetCe params - Ce s) * vc p * ke0 p) / 60
      = (targetCe params * cl1 p + (targetCe params - Ce s) * vc p * ke0 p) * (1 / 60)" by simp
  show ?thesis unfolding desiredRate_def arate0_def d
    using ap e unfolding relParams_def
    by (intro imin_sound imax0_sound imul_sound iadd_sound isub_sound) simp_all
qed

lemma aremaining_sound:
  assumes "inI r A" "inI x X"
  shows "inI (max (r - x) 0) (aremaining A X)"
proof -
  obtain rl ru where A: "A = (rl, ru)" by (cases A)
  obtain xl xu where X: "X = (xl, xu)" by (cases X)
  have "max (r - x) 0 * real_of_int scale = max (r * real_of_int scale - x * real_of_int scale) 0"
    using scale_pos by (simp add: max_def left_diff_distrib mult_le_0_iff)
  then show ?thesis using assms unfolding A X
    by (simp add: inI_pair of_int_max) (auto simp: max_def)
qed

lemma remaining_after:
  fixes r r0 i :: real
  assumes "0 < i"
  shows "r - min r0 (r / i) * i = max (r - r0 * i) 0"
proof (cases "r0 \<le> r / i")
  case True
  then have "r0 * i \<le> r" using assms by (simp add: pos_le_divide_eq)
  with True show ?thesis by (simp add: min_def max_def)
next
  case False
  then have "r < r0 * i" using assms by (simp add: pos_le_divide_eq not_le)
  with False assms show ?thesis by (simp add: min_def max_def)
qed

lemma relParams_interval_pos: "relParams ap p params \<Longrightarrow> 0 < interval params"
proof -
  assume "relParams ap p params"
  then have "0 < interval params * real_of_int scale" unfolding relParams_def by simp
  then show ?thesis using scale_pos by (simp add: zero_less_mult_iff)
qed

lemma afinish_sound:
  assumes ap: "relParams ap p params" and st: "relState s a"
    and r: "inI (infusionRateMgSec p params s) ar"
    and rem: "inI (remainingMg (maintenanceTick p params s)) arem'"
    and fin: "afinish ap ar arem' a = Some a'"
  shows "relState (maintenanceTick p params s) a'"
proof -
  let ?s' = "maintenanceTick p params s"
  have dt: "interval params * real_of_int scale = real_of_int (a_dt ap)"
    using ap unfolding relParams_def by simp
  have kg: "inI ((infusionRateMgSec p params s * 60) / weightKg params * 1000) (imul ar (a_kg ap))"
    unfolding perKg_eq using ap r unfolding relParams_def by (intro imul_sound) simp_all
  have gen: "relState ?s' (anext ap ar arem' (a_dt ap) (imul ar (a_kg ap)) ph a)"
    if "phase (last (steps ?s')) = ph" for ph
    by (rule anext_sound [OF ap st r dt rem kg])
       (use that in \<open>simp_all add: maintenanceTick_def Let_def\<close>)
  show ?thesis
  proof (cases "0 < fst arem'")
    case True
    then have "0 < remainingMg ?s'" by (rule inI_pos [OF rem])
    then have "phase (last (steps ?s')) = Maintenance" by (simp add: maintenanceTick_steps)
    from gen [OF this] fin True show ?thesis by (simp add: afinish_def)
  next
    case False
    with fin have le: "snd arem' \<le> 0" by (simp add: afinish_def split: if_splits)
    then have "remainingMg ?s' \<le> 0" by (rule inI_nonpos [OF rem])
    then have "phase (last (steps ?s')) = Decay" by (simp add: maintenanceTick_steps)
    from gen [OF this] fin False le show ?thesis by (simp add: afinish_def)
  qed
qed

lemma maintenanceTick_sound:
  assumes ap: "relParams ap p params" and st: "relState s a"
    and t: "amaintenanceTick ap a = Some a'"
  shows "relState (maintenanceTick p params s) a'"
proof -
  have i: "0 < interval params" by (rule relParams_interval_pos [OF ap])
  have rm: "inI (remainingMg s) (aRem a)" and e: "inI (Ce s) (aCe a)"
    using st unfolding relState_def by simp_all
  have d: "inI (interval params) (a_dt ap, a_dt ap)"
    using ap unfolding relParams_def by (intro inI_dt) simp
  show ?thesis
  proof (cases "0 < fst (aRem a)")
    case True
    then have pos: "0 < remainingMg s" by (rule inI_pos [OF rm])
    have r: "inI (infusionRateMgSec p params s)
        (imin (arate0 ap (aCe a)) (imul (aRem a) (a_dtinv ap)))"
    proof -
      have q: "remainingMg s / interval params = remainingMg s * (1 / interval params)" by simp
      have "inI (1 / interval params) (a_dtinv ap)" using ap unfolding relParams_def by simp
      then have "inI (remainingMg s / interval params) (imul (aRem a) (a_dtinv ap))"
        unfolding q by (intro imul_sound rm)
      then show ?thesis unfolding infusionRate_alt [OF pos]
        by (intro imin_sound arate0_sound [OF ap e])
    qed
    have "remainingMg (maintenanceTick p params s)
        = max (remainingMg s - desiredRate p params s * interval params) 0"
      using pos by (simp add: maintenanceTick_remainingMg infusionRate_alt remaining_after [OF i])
    then have rem: "inI (remainingMg (maintenanceTick p params s))
        (aremaining (aRem a) (imul (arate0 ap (aCe a)) (a_dt ap, a_dt ap)))"
      using rm arate0_sound [OF ap e] d
      by (simp only:) (intro aremaining_sound imul_sound)
    from t True have "afinish ap (imin (arate0 ap (aCe a)) (imul (aRem a) (a_dtinv ap)))
          (aremaining (aRem a) (imul (arate0 ap (aCe a)) (a_dt ap, a_dt ap))) a = Some a'"
      by (simp add: amaintenanceTick_def)
    from afinish_sound [OF ap st r rem this] show ?thesis .
  next
    case False
    with t have le: "snd (aRem a) \<le> 0" and f: "afinish ap (0, 0) (aRem a) a = Some a'"
      by (simp_all add: amaintenanceTick_def split: if_splits)
    have np: "remainingMg s \<le> 0" by (rule inI_nonpos [OF rm le])
    then have r: "inI (infusionRateMgSec p params s) (0, 0)"
      by (simp add: infusionRateMgSec_def inI_zero)
    have rem: "inI (remainingMg (maintenanceTick p params s)) (aRem a)"
      using np rm by (simp add: maintenanceTick_remainingMg)
    from afinish_sound [OF ap st r rem f] show ?thesis .
  qed
qed

lemma acontinue_sound:
  assumes "relState s a" "acontinue a"
  shows "remainingMg s > 0 \<or> Ce s > 0.01"
proof -
  from assms have rm: "inI (remainingMg s) (aRem a)" and e: "inI (Ce s) (aCe a)"
    unfolding relState_def by simp_all
  from assms(2) show ?thesis unfolding acontinue_def
    using inI_pos [OF rm] inI_gt [OF e, of threshold] threshold_real by auto
qed

lemma astop_sound:
  assumes "relState s a" "astop a"
  shows "remainingMg s \<le> 0 \<and> Ce s \<le> 0.01"
proof -
  from assms have rm: "inI (remainingMg s) (aRem a)" and e: "inI (Ce s) (aCe a)"
    unfolding relState_def by simp_all
  from assms(2) show ?thesis unfolding astop_def
    using inI_nonpos [OF rm] inI_le [OF e, of threshold] threshold_real by auto
qed

lemma maintenanceLoop_sound:
  assumes ap: "relParams ap p params"
  shows "relState s a \<Longrightarrow> amaintenanceLoop n ap a = Some a'
      \<Longrightarrow> \<exists>s'. maintenanceLoop p params s = Some s' \<and> relState s' a'"
proof (induction n arbitrary: s a)
  case 0
  then show ?case by simp
next
  case (Suc n)
  note st = Suc.prems(1)
  show ?case
  proof (cases "acontinue a")
    case True
    note c = acontinue_sound [OF st True]
    from Suc.prems(2) True obtain a1 where t: "amaintenanceTick ap a = Some a1"
      and r: "(if astop a1 then Some a1 else if acontinue a1 then amaintenanceLoop n ap a1 else None) = Some a'"
      by (auto split: option.splits)
    note st1 = maintenanceTick_sound [OF ap st t]
    show ?thesis
    proof (cases "astop a1")
      case True
      with r have "a' = a1" by simp
      moreover have "maintenanceLoop p params s = Some (maintenanceTick p params s)"
        using c astop_sound [OF st1 True] by (subst maintenanceLoop.simps) auto
      ultimately show ?thesis using st1 by simp
    next
      case False
      with r have c1: "acontinue a1" and l: "amaintenanceLoop n ap a1 = Some a'"
        by (simp_all split: if_splits)
      from Suc.IH [OF st1 l] obtain s' where
        s': "maintenanceLoop p params (maintenanceTick p params s) = Some s'" "relState s' a'"
        by blast
      have "\<not> (remainingMg (maintenanceTick p params s) \<le> 0 \<and> Ce (maintenanceTick p params s) \<le> 0.01)"
        using acontinue_sound [OF st1 c1] by auto
      then have "maintenanceLoop p params s = maintenanceLoop p params (maintenanceTick p params s)"
        using c by (subst maintenanceLoop.simps) auto
      with s' show ?thesis by simp
    qed
  next
    case False
    with Suc.prems(2) have sp: "astop a" and eq: "a' = a" by (simp_all split: if_splits)
    have "maintenanceLoop p params s = Some s"
      using astop_sound [OF st sp] by (subst maintenanceLoop.simps) auto
    with st eq show ?thesis by simp
  qed
qed

theorem aprotocol_sound:
  assumes ap: "relParams ap (eleveldParameters params) params"
    and b: "inI (bolusRateMgSec params) ab"
    and D: "resolvedLoadingDurationSec params * real_of_int scale = real_of_int Dv"
    and st: "relState (initialState params) a"
    and run: "aprotocol n ap ab Dv a = Some axs"
  shows "\<exists>xs. eleveldProtocol params = Some xs \<and> list_all2 relStep xs axs"
proof -
  from run obtain a1 a2 where l: "aloadingLoop n ap ab Dv a = Some a1"
    and m: "amaintenanceLoop n ap a1 = Some a2" and axs: "axs = aSteps a2"
    unfolding aprotocol_def by (auto split: option.splits)
  from loadingLoop_sound [OF ap b D st l] obtain s1 where
    s1: "loadingLoop (eleveldParameters params) params (bolusRateMgSec params)
          (resolvedLoadingDurationSec params) (initialState params) = Some s1" "relState s1 a1"
    by blast
  from maintenanceLoop_sound [OF ap s1(2) m] obtain s2 where
    s2: "maintenanceLoop (eleveldParameters params) params s1 = Some s2" "relState s2 a2"
    by blast
  have "eleveldProtocol params = Some (steps s2)"
    unfolding eleveldProtocol_def Let_def using s1(1) s2(1) by simp
  moreover have "list_all2 relStep (steps s2) axs"
    using s2(2) axs unfolding relState_def by simp
  ultimately show ?thesis by blast
qed

subsection \<open>The parameters of the reference patient\<close>

lemma exp_483_bounds:
  "0.6169297 \<le> exp (- 0.483 :: real)" "exp (- 0.483 :: real) \<le> 0.6169300"
proof -
  obtain t :: real where t: "\<bar>t\<bar> \<le> \<bar>- 0.483\<bar>"
    and e: "exp (- 0.483 :: real) = (\<Sum>m<8. ((- 0.483) ^ m) / fact m) + (exp t / fact 8) * (- 0.483) ^ 8"
    using Maclaurin_exp_le [of "- 0.483" 8] by blast
  have s: "(\<Sum>m<8. ((- 0.483 :: real) ^ m) / fact m) = 49354380293809849413971 / 80000000000000000000000"
    by (simp add: eval_nat_numeral)
  define q where "q = (exp t / fact 8) * (- 0.483 :: real) ^ 8"
  have "norm t \<le> 1 / 2" using t by simp
  then have "norm (exp t) \<le> 2" by (rule exp_bound_half)
  then have et: "0 \<le> exp t" "exp t \<le> 2" by simp_all
  have p: "(0::real) \<le> (- 0.483) ^ 8 / fact 8" by simp
  have r0: "0 \<le> q" unfolding q_def using et by simp
  have "q = exp t * ((- 0.483) ^ 8 / fact 8)" unfolding q_def by simp
  also have "\<dots> \<le> 2 * ((- 0.483) ^ 8 / fact 8)"
    by (rule mult_right_mono [OF et(2) p])
  also have "\<dots> \<le> 0.0000002"
    by (simp add: fact_numeral power_divide)
  finally have r1: "q \<le> 0.0000002" .
  have eq: "exp (- 0.483 :: real) = 49354380293809849413971 / 80000000000000000000000 + q"
    unfolding q_def using e s by simp
  show "0.6169297 \<le> exp (- 0.483 :: real)" unfolding eq using r0 by simp
  show "exp (- 0.483 :: real) \<le> 0.6169300" unfolding eq using r1 by simp
qed

lemma powr_34_lower:
  fixes x l :: real
  assumes "0 < l" "0 < x" "l ^ 4 \<le> x ^ 3"
  shows "l \<le> x powr 0.75"
proof -
  have "l = (l ^ 4) powr (1 / 4)"
    using assms(1) by (simp add: powr_powr flip: powr_numeral)
  also have "\<dots> \<le> (x ^ 3) powr (1 / 4)"
    using assms by (intro powr_mono2) simp_all
  also have "\<dots> = x powr 0.75"
    using assms(2) by (simp add: powr_powr flip: powr_numeral)
  finally show ?thesis .
qed

lemma powr_34_upper:
  fixes x u :: real
  assumes "0 < u" "0 < x" "x ^ 3 \<le> u ^ 4"
  shows "x powr 0.75 \<le> u"
proof -
  have "x powr 0.75 = (x ^ 3) powr (1 / 4)"
    using assms(2) by (simp add: powr_powr flip: powr_numeral)
  also have "\<dots> \<le> (u ^ 4) powr (1 / 4)"
    using assms by (intro powr_mono2) simp_all
  also have "\<dots> = u"
    using assms(1) by (simp add: powr_powr flip: powr_numeral)
  finally show ?thesis .
qed

lemma refCovariates_parameters:
  "refCovariates q \<Longrightarrow> eleveldParameters q = eleveldParameters refPropofol"
  by (simp add: refCovariates_def eleveldParameters_def refPropofol_def)

lemma fq3maturation_ref_pos: "0 < fq3maturation (35 * toWeeks)"
  unfolding fq3maturation_def by (rule fsigmoid_pos) (simp_all add: toWeeks_def)

lemma fq3maturation_ref: "fq3maturation (35 * toWeeks) = 18650015 / 19333015"
  by (simp add: fq3maturation_def fsigmoid_def pow_def toWeeks_def)

lemma fclmaturation_ref_pos: "0 < fclmaturation (35 * toWeeks + 40)"
  unfolding fclmaturation_def by (rule fsigmoid_pos) (simp_all add: toWeeks_def)

lemma ffm_ratio_ref: "fffm 70 170 35 Male = ffmRef * ((6680 + 216 * 24.22145) / (6680 + 216 * (70 / 2.89)))"
proof -
  define A :: real where "A = 0.88 + (1 - 0.88) / (1 + pow (35 / 13.4) (- 12.7))"
  have "0 < pow (35 / 13.4) (- 12.7)" by (simp add: pow_pos)
  then have "0 < A" unfolding A_def by (intro add_pos_pos divide_pos_pos) simp_all
  then have A: "A \<noteq> 0" by simp
  have p: "pow (170 / 100) 2 = 2.89"
    by (simp add: pow_def power2_eq_square flip: powr_numeral [where n = "Num.Bit0 Num.One"] )
  have f: "fffm 70 170 35 Male = A * ((9270 * 70) / (6680 + 216 * (70 / 2.89)))"
    unfolding fffm_def Let_def p A_def by simp
  have r: "ffmRef = A * ((9270 * 70) / (6680 + 216 * 24.22145))"
    unfolding ffmRef_def A_def by simp
  show ?thesis unfolding f r using A by simp
qed

lemma ref_simple:
  "vc (eleveldParameters refPropofol) = 6.28"
  "cl1 (eleveldParameters refPropofol) = 1.79"
  "ke0 (eleveldParameters refPropofol) = 0.146"
  "k10 (eleveldParameters refPropofol) = 1.79 / 6.28"
  "k12 (eleveldParameters refPropofol) = 1.75 * (1 + 1.3 * (1 - 18650015 / 19333015)) / 6.28"
  "k21 (eleveldParameters refPropofol) = 1.75 * (1 + 1.3 * (1 - 18650015 / 19333015)) / 25.5"
  using fcentral_70_pos fclmaturation_ref_pos
  by (simp_all add: eleveldParameters_def refPropofol_def Let_def pow_def fageing_def fq3maturation_ref)

lemma ref_v3: "v3 (eleveldParameters refPropofol) = 273 * refX"
  using ffmRef_pos
  by (simp add: eleveldParameters_def refPropofol_def Let_def ffm_ratio_ref refX_def)

lemma ref_k13: "k13 (eleveldParameters refPropofol) = 1.11 * refX powr 0.75 / 6.28"
  using fcentral_70_pos fq3maturation_ref_pos ffmRef_pos
  by (simp add: eleveldParameters_def refPropofol_def Let_def ffm_ratio_ref refX_def pow_def)

lemma ref_k31: "k31 (eleveldParameters refPropofol) = 1.11 * refX powr 0.75 / (273 * refX)"
  using fcentral_70_pos fq3maturation_ref_pos ffmRef_pos
  by (simp add: eleveldParameters_def refPropofol_def Let_def ffm_ratio_ref refX_def pow_def)

lemma refX_bounds: "0.61692 \<le> refX" "refX \<le> 0.61694"
proof -
  have R: "0.9999999 \<le> (6680 + 216 * 24.22145) / (6680 + 216 * (70 / 2.89 :: real))"
    "(6680 + 216 * 24.22145) / (6680 + 216 * (70 / 2.89 :: real)) \<le> 1"
    by simp_all
  have "0.61692 \<le> (0.9999999 :: real) * 0.6169297" by simp
  also have "\<dots> \<le> (6680 + 216 * 24.22145) / (6680 + 216 * (70 / 2.89)) * exp (- 0.483)"
    using R(1) exp_483_bounds(1) by (intro mult_mono) simp_all
  finally show "0.61692 \<le> refX" unfolding refX_def .
  have "(6680 + 216 * 24.22145) / (6680 + 216 * (70 / 2.89)) * exp (- 0.483 :: real) \<le> 1 * 0.6169300"
    using R(2) exp_483_bounds(2) by (intro mult_mono) simp_all
  then show "refX \<le> 0.61694" unfolding refX_def by simp
qed

lemma refX_powr_bounds: "0.69605 \<le> refX powr 0.75" "refX powr 0.75 \<le> 0.6962"
proof -
  have x: "0 < refX" using refX_bounds(1) by simp
  have "(0.69605 :: real) ^ 4 \<le> 0.61692 ^ 3" by (simp add: power_divide)
  also have "\<dots> \<le> refX ^ 3" using refX_bounds(1) by (intro power_mono) simp_all
  finally show "0.69605 \<le> refX powr 0.75" using x by (intro powr_34_lower) simp_all
  have "refX ^ 3 \<le> 0.61694 ^ 3" using refX_bounds(2) x by (intro power_mono) simp_all
  also have "\<dots> \<le> (0.6962 :: real) ^ 4" by (simp add: power_divide)
  finally show "refX powr 0.75 \<le> 0.6962" using x by (intro powr_34_upper) simp_all
qed

lemma ref_k13_bounds:
  "0.123019 \<le> k13 (eleveldParameters refPropofol)" "k13 (eleveldParameters refPropofol) \<le> 0.123055"
  unfolding ref_k13 using refX_powr_bounds by simp_all

lemma ref_k31_bounds:
  "0.004587 \<le> k31 (eleveldParameters refPropofol)" "k31 (eleveldParameters refPropofol) \<le> 0.004589"
proof -
  have x: "0 < refX" using refX_bounds(1) by simp
  have d: "0 < 273 * refX" using x by simp
  have "0.004587 * (273 * refX) \<le> 0.004587 * (273 * 0.61694)"
    using refX_bounds(2) by simp
  also have "\<dots> \<le> 1.11 * 0.69605" by simp
  also have "\<dots> \<le> 1.11 * refX powr 0.75" using refX_powr_bounds(1) by simp
  finally show "0.004587 \<le> k31 (eleveldParameters refPropofol)"
    unfolding ref_k31 using d by (simp only: pos_le_divide_eq)
  have "1.11 * refX powr 0.75 \<le> 1.11 * 0.6962" using refX_powr_bounds(2) by simp
  also have "\<dots> \<le> 0.004589 * (273 * 0.61692)" by simp
  also have "\<dots> \<le> 0.004589 * (273 * refX)" using refX_bounds(1) by simp
  finally show "k31 (eleveldParameters refPropofol) \<le> 0.004589"
    unfolding ref_k31 using d by (simp only: pos_divide_le_eq)
qed

lemma refAParams_rel:
  assumes c: "refCovariates q" and conc: "concentrationMgPerMl q = 10"
    and i: "intervalSec q = Some 10" and t: "targetCe q * real_of_int scale = real_of_int tv"
  shows "relParams (refAParams (tv, tv)) (eleveldParameters q) q"
proof -
  have w: "weightKg q = 70" using c by (simp add: refCovariates_def)
  note p = refCovariates_parameters [OF c]
  have k13: "inI (k13 (eleveldParameters refPropofol)) (123019, 123055)"
    using ref_k13_bounds by (simp add: inI_pair scale_def)
  have k31: "inI (k31 (eleveldParameters refPropofol)) (4587, 4589)"
    using ref_k31_bounds by (simp add: inI_pair scale_def)
  have tg: "inI (targetCe q) (tv, tv)" by (rule inI_dt [OF t])
  show ?thesis unfolding relParams_def p refAParams_def AParams.sel
    using k13 k31 tg
    by (simp add: ref_simple inI_pair scale_def maxRateMgSec_def conc w interval_def i)
qed

lemma initialAState_rel:
  assumes "startCe q * real_of_int scale = real_of_int sv"
    and "maintenanceBudgetMg q * real_of_int scale = real_of_int bv"
  shows "relState (initialState q) (initialAState (sv, sv) (bv, bv))"
  using assms
  by (simp add: relState_def initialAState_def initialState_simps
      maintenanceBudgetMg_def inI_pair)

subsection \<open>Four concrete runs\<close>

lemma ref_arun:
  "aprotocol 40 (refAParams (3000000, 3000000)) (2777777, 2777778) 6782400
     (initialAState (0, 0) (200000000, 200000000)) = Some refASteps"
  by code_simp


lemma steady_arun:
  "aprotocol 40 (refAParams (3000000, 3000000)) (0, 0) 0
     (initialAState (3000000, 3000000) (0, 0)) = Some steadyASteps"
  by code_simp

lemma maint_arun:
  "aprotocol 40 (refAParams (3000000, 3000000)) (0, 0) 0
     (initialAState (3000000, 3000000) (1000000, 1000000)) = Some maintASteps"
  by code_simp

lemma refCovariates_inputs:
  "refCovariates refPropofol" "refCovariates timeInput" "refCovariates steadyInput"
  "refCovariates maintInput"
  by (simp_all add: refCovariates_def refPropofol_def timeInput_def steadyInput_def maintInput_def)

lemma refPropofol_fields:
  "concentrationMgPerMl refPropofol = 10" "targetCe refPropofol = 3"
  "intervalSec refPropofol = Some 10" "volumeMl refPropofol = Some 20"
  "currentCe refPropofol = None" "loadingDoseMg refPropofol = None"
  "loadingDurationSec refPropofol = None"
  by (simp_all add: refPropofol_def)


lemma steadyInput_fields:
  "concentrationMgPerMl steadyInput = 10" "targetCe steadyInput = 3"
  "intervalSec steadyInput = Some 10" "volumeMl steadyInput = None"
  "currentCe steadyInput = Some 3" "loadingDoseMg steadyInput = None"
  "loadingDurationSec steadyInput = None"
  by (simp_all add: steadyInput_def refPropofol_def)

lemma maintInput_fields:
  "concentrationMgPerMl maintInput = 10" "targetCe maintInput = 3"
  "intervalSec maintInput = Some 10" "volumeMl maintInput = Some 0.1"
  "currentCe maintInput = Some 3" "loadingDoseMg maintInput = None"
  "loadingDurationSec maintInput = None"
  by (simp_all add: maintInput_def refPropofol_def)

lemma bolus_no_override:
  assumes n: "loadingDoseMg q = None" "loadingDurationSec q = None"
    and c: "refCovariates q" "concentrationMgPerMl q = 10"
    and d: "startCe q < targetCe q"
  shows "bolusRateMgSec q = 25 / 9"
    and "resolvedLoadingDurationSec q = (targetCe q - startCe q) * 6.28 / (25 / 9)"
proof -
  define dose where "dose = (targetCe q - startCe q) * 6.28"
  have dp: "0 < dose" unfolding dose_def using d by simp
  have cl: "calculateLoadingDose q = (dose, dose / (25 / 9))"
    using c d unfolding dose_def
    by (simp add: calculateLoadingDose_def Let_def refCovariates_parameters ref_simple max_def)
  have g: "resolvedLoadingDoseMg q = dose" "requestedLoadingDurationSec q = dose / (25 / 9)"
    using n cl by (simp_all add: resolvedLoadingDoseMg_def requestedLoadingDurationSec_def)
  have m: "maxRateMgSec q = 25 / 9" using c by (simp add: maxRateMgSec_def)
  have q: "dose / (dose / (25 / 9)) = 25 / 9" using dp by simp
  have ne: "dose / (25 / 9) \<noteq> 0" using dp by simp
  have ex: "\<not> bolusExceeds dose (dose / (25 / 9)) (25 / 9)"
    unfolding bolusExceeds_def using ne q by simp
  show "bolusRateMgSec q = 25 / 9"
    unfolding bolusRateMgSec_def g m using ex q by (simp only: if_False)
  show "resolvedLoadingDurationSec q = (targetCe q - startCe q) * 6.28 / (25 / 9)"
    unfolding resolvedLoadingDurationSec_def g m using ex by (simp only: if_False dose_def)
qed

lemma bolus_none:
  assumes "loadingDoseMg q = None" "loadingDurationSec q = None" "startCe q = targetCe q"
  shows "bolusRateMgSec q = 0" and "resolvedLoadingDurationSec q = 0"
proof -
  have g: "resolvedLoadingDoseMg q = 0" "requestedLoadingDurationSec q = 0"
    using assms
    by (simp_all add: resolvedLoadingDoseMg_def requestedLoadingDurationSec_def
        calculateLoadingDose_def Let_def)
  show "bolusRateMgSec q = 0" "resolvedLoadingDurationSec q = 0"
    by (simp_all add: bolusRateMgSec_def resolvedLoadingDurationSec_def g bolusExceeds_def)
qed

lemma inI_25_9: "inI (25 / 9) (2777777, 2777778)"
  by (simp add: inI_pair scale_def)

lemma ref_run: "\<exists>xs. eleveldProtocol refPropofol = Some xs \<and> list_all2 relStep xs refASteps"
proof (rule aprotocol_sound [OF _ _ _ _ ref_arun])
  show "relParams (refAParams (3000000, 3000000)) (eleveldParameters refPropofol) refPropofol"
    by (rule refAParams_rel [OF refCovariates_inputs(1)])
       (simp_all add: refPropofol_fields scale_def)
  have s: "startCe refPropofol < targetCe refPropofol"
    by (simp add: startCe_def refPropofol_fields)
  show "inI (bolusRateMgSec refPropofol) (2777777, 2777778)"
    unfolding bolus_no_override(1) [OF refPropofol_fields(6,7) refCovariates_inputs(1) refPropofol_fields(1) s]
    by (rule inI_25_9)
  show "resolvedLoadingDurationSec refPropofol * real_of_int scale = real_of_int 6782400"
    unfolding bolus_no_override(2) [OF refPropofol_fields(6,7) refCovariates_inputs(1) refPropofol_fields(1) s]
    by (simp add: startCe_def refPropofol_fields scale_def)
  show "relState (initialState refPropofol) (initialAState (0, 0) (200000000, 200000000))"
    by (rule initialAState_rel)
       (simp_all add: startCe_def maintenanceBudgetMg_def refPropofol_fields scale_def)
qed


lemma steady_run: "\<exists>xs. eleveldProtocol steadyInput = Some xs \<and> list_all2 relStep xs steadyASteps"
proof (rule aprotocol_sound [OF _ _ _ _ steady_arun])
  show "relParams (refAParams (3000000, 3000000)) (eleveldParameters steadyInput) steadyInput"
    by (rule refAParams_rel [OF refCovariates_inputs(3)])
       (simp_all add: steadyInput_fields scale_def)
  have s: "startCe steadyInput = targetCe steadyInput"
    by (simp add: startCe_def steadyInput_fields)
  show "inI (bolusRateMgSec steadyInput) (0, 0)"
    unfolding bolus_none(1) [OF steadyInput_fields(6,7) s] by (rule inI_zero)
  show "resolvedLoadingDurationSec steadyInput * real_of_int scale = real_of_int 0"
    unfolding bolus_none(2) [OF steadyInput_fields(6,7) s] by simp
  show "relState (initialState steadyInput) (initialAState (3000000, 3000000) (0, 0))"
    by (rule initialAState_rel)
       (simp_all add: startCe_def maintenanceBudgetMg_def steadyInput_fields scale_def)
qed

lemma maint_run: "\<exists>xs. eleveldProtocol maintInput = Some xs \<and> list_all2 relStep xs maintASteps"
proof (rule aprotocol_sound [OF _ _ _ _ maint_arun])
  show "relParams (refAParams (3000000, 3000000)) (eleveldParameters maintInput) maintInput"
    by (rule refAParams_rel [OF refCovariates_inputs(4)])
       (simp_all add: maintInput_fields scale_def)
  have s: "startCe maintInput = targetCe maintInput"
    by (simp add: startCe_def maintInput_fields)
  show "inI (bolusRateMgSec maintInput) (0, 0)"
    unfolding bolus_none(1) [OF maintInput_fields(6,7) s] by (rule inI_zero)
  show "resolvedLoadingDurationSec maintInput * real_of_int scale = real_of_int 0"
    unfolding bolus_none(2) [OF maintInput_fields(6,7) s] by simp
  show "relState (initialState maintInput) (initialAState (3000000, 3000000) (1000000, 1000000))"
    by (rule initialAState_rel)
       (simp_all add: startCe_def maintenanceBudgetMg_def maintInput_fields scale_def)
qed

lemma ref_bolus_duration: "resolvedLoadingDurationSec refPropofol = 6.7824"
proof -
  have s: "startCe refPropofol < targetCe refPropofol"
    by (simp add: startCe_def refPropofol_fields)
  show ?thesis
    unfolding bolus_no_override(2) [OF refPropofol_fields(6,7) refCovariates_inputs(1) refPropofol_fields(1) s]
    by (simp add: startCe_def refPropofol_fields)
qed

lemma relStep_nth:
  assumes "list_all2 relStep xs axs" "k < length axs"
  shows "relStep (xs ! k) (axs ! k)"
  using assms by (simp add: list_all2_conv_all_nth)

lemma inI_upper: "inI x (l, u) \<Longrightarrow> x \<le> real_of_int u / 1000000"
  by (simp add: inI_pair scale_def)

lemma inI_lower: "inI x (l, u) \<Longrightarrow> real_of_int l / 1000000 \<le> x"
  by (simp add: inI_pair scale_def)

lemma validInput_inputs:
  "validInput refPropofol" "validInput timeInput" "validInput steadyInput" "validInput maintInput"
  by (simp_all add: validInput_def validCovariates_def refPropofol_def timeInput_def
      steadyInput_def maintInput_def)

lemma ref_run_length: "eleveldProtocol refPropofol = Some xs \<Longrightarrow> length xs = 19"
proof -
  assume run: "eleveldProtocol refPropofol = Some xs"
  from ref_run obtain ys where "eleveldProtocol refPropofol = Some ys"
    "list_all2 relStep ys refASteps" by blast
  with run have "list_all2 relStep xs refASteps" by simp
  from list_all2_lengthD [OF this] show ?thesis by (simp add: refASteps_def)
qed

lemma ref_run_Some: "\<exists>xs. eleveldProtocol refPropofol = Some xs"
  using ref_run by blast

subsection \<open>C3: the reference run terminates\<close>

text \<open>
  Claim C3. For the reference patient (propofol, 70 kg, 35 years, male, 170 cm,
  target 3, maintenance volume 20 mL at 10 mg/mL, interval 10 s, no overrides)
  \<open>eleveldProtocol\<close> returns: it emits 19 steps, and the effect-site concentration
  of the last one is at most the decay threshold 0.01.
\<close>

theorem reference_run_terminates:
  "\<exists>xs. eleveldProtocol refPropofol = Some xs \<and> length xs = 19 \<and> ce (last xs) \<le> 0.01"
proof -
  from ref_run obtain xs where run: "eleveldProtocol refPropofol = Some xs"
    and rel: "list_all2 relStep xs refASteps" by blast
  have len: "length xs = 19"
    using list_all2_lengthD [OF rel] by (simp add: refASteps_def)
  then have "xs \<noteq> []" by auto
  then have l: "last xs = xs ! 18" by (simp add: last_conv_nth len)
  have "relStep (xs ! 18) (refASteps ! 18)"
    by (rule relStep_nth [OF rel]) (simp add: refASteps_def)
  then have "inI (ce (xs ! 18)) (- 184703247742004668980, - 179614908534732866980)"
    by (simp add: relStep_def refASteps_def)
  from inI_upper [OF this] have "ce (last xs) \<le> 0.01" unfolding l by simp
  with run len show ?thesis by blast
qed

subsection \<open>C4: concentrations in the reference run\<close>

text \<open>
  Claim C4 says that every emitted step has \<open>ce \<ge> 0\<close>. In the reference run the
  third emitted step has an effect-site concentration below \<open>-27\<close>: the rate
  constants are per minute, the Euler step multiplies them by a step in seconds, and
  the central concentration overshoots below zero.
\<close>

theorem reference_run_negative_concentration:
  "\<exists>xs. eleveldProtocol refPropofol = Some xs \<and> length xs = 19 \<and> ce (xs ! 2) < - 27"
proof -
  from ref_run obtain xs where run: "eleveldProtocol refPropofol = Some xs"
    and rel: "list_all2 relStep xs refASteps" by blast
  have len: "length xs = 19"
    using list_all2_lengthD [OF rel] by (simp add: refASteps_def)
  have "relStep (xs ! 2) (refASteps ! 2)"
    by (rule relStep_nth [OF rel]) (simp add: refASteps_def)
  then have "inI (ce (xs ! 2)) (- 27960590, - 27958400)"
    by (simp add: relStep_def refASteps_def)
  from inI_upper [OF this] have "ce (xs ! 2) < - 27" by simp
  with run len show ?thesis by blast
qed

subsection \<open>C8: the rate of decay steps\<close>

text \<open>
  Claim C8 says that every step tagged decay has rate 0. In the reference run the
  18th emitted step is tagged decay and has a rate above 2200: the pass that uses up
  the maintenance budget infuses at a positive rate, and its tag is computed from the
  budget left after the pass.
\<close>

theorem reference_run_decay_step_with_rate:
  "\<exists>xs. eleveldProtocol refPropofol = Some xs \<and> length xs = 19
     \<and> phase (xs ! 17) = Decay \<and> 2200 < rate (xs ! 17)"
proof -
  from ref_run obtain xs where run: "eleveldProtocol refPropofol = Some xs"
    and rel: "list_all2 relStep xs refASteps" by blast
  have len: "length xs = 19"
    using list_all2_lengthD [OF rel] by (simp add: refASteps_def)
  have "relStep (xs ! 17) (refASteps ! 17)"
    by (rule relStep_nth [OF rel]) (simp add: refASteps_def)
  then have r: "inI (rate (xs ! 17)) (2200234285, 2200310574)" and p: "phase (xs ! 17) = Decay"
    by (simp_all add: relStep_def refASteps_def)
  from inI_lower [OF r] have "2200 < rate (xs ! 17)" by simp
  with run len p show ?thesis by blast
qed

subsection \<open>C5: the cumulative dose in double precision\<close>






























subsection \<open>C6, C7 and C9 at concrete inputs, and the exact bound of the cumulative dose\<close>

text \<open>The exact bound of the cumulative dose at the reference patient, whose run has 19
  steps.\<close>

theorem cumulative_dose_monotone_bounded_witness:
  "validInput refPropofol
   \<and> (\<exists>xs. eleveldProtocol refPropofol = Some xs \<and> length xs = 19
         \<and> sorted (map cumulativeDoseMg xs)
         \<and> cumulativeDoseMg (last xs) \<le> 18.84 + 200)"
proof -
  from ref_run_Some obtain xs where run: "eleveldProtocol refPropofol = Some xs" by blast
  note len = ref_run_length [OF run]
  then have ne: "xs \<noteq> []" by auto
  have d: "resolvedLoadingDoseMg refPropofol = 18.84"
    by (simp add: resolvedLoadingDoseMg_def refPropofol_fields
        calculateLoadingDose_def Let_def refPropofol_vc startCe_def)
  have b: "maintenanceBudgetMg refPropofol = 200"
    by (simp add: maintenanceBudgetMg_def refPropofol_fields)
  from cumulative_dose_monotone_bounded [OF validInput_inputs(1) run] ne
  have "sorted (map cumulativeDoseMg xs)" "cumulativeDoseMg (last xs) \<le> 18.84 + 200"
    unfolding d b by simp_all
  with validInput_inputs(1) run len show ?thesis by blast
qed

text \<open>Claim C6 at the reference patient.\<close>

theorem phase_sequence_monotone_witness:
  "\<exists>xs. eleveldProtocol refPropofol = Some xs \<and> length xs = 19
      \<and> (\<exists>a b c. map phase xs = replicate a Loading @ replicate b Maintenance @ replicate c Decay)"
proof -
  from ref_run_Some obtain xs where run: "eleveldProtocol refPropofol = Some xs" by blast
  from phase_sequence_monotone [OF run] run ref_run_length [OF run] show ?thesis by blast
qed


text \<open>Claim C9 as it was stated (first step tagged maintenance whenever the starting
  concentration equals the target) fails for a valid input: with no maintenance volume
  the first emitted step is tagged decay.\<close>

theorem first_step_decay_without_budget:
  "validInput steadyInput \<and> currentCe steadyInput = Some (targetCe steadyInput)
   \<and> eleveldProtocol steadyInput \<noteq> None
   \<and> length (the (eleveldProtocol steadyInput)) = 2
   \<and> phase (hd (the (eleveldProtocol steadyInput))) = Decay"
proof -
  from steady_run obtain xs where run: "eleveldProtocol steadyInput = Some xs"
    and rel: "list_all2 relStep xs steadyASteps" by blast
  have len: "length xs = 2"
    using list_all2_lengthD [OF rel] by (simp add: steadyASteps_def)
  then have h: "hd xs = xs ! 0" by (cases xs) simp_all
  have "relStep (xs ! 0) (steadyASteps ! 0)"
    by (rule relStep_nth [OF rel]) (simp add: steadyASteps_def)
  then have "phase (hd xs) = Decay" unfolding h
    by (simp add: relStep_def steadyASteps_def)
  with run len validInput_inputs(3) show ?thesis by (simp add: steadyInput_fields)
qed

text \<open>The amended claim C9 at the reference patient (a positive loading duration) and
  at a patient already at the target with a maintenance volume of 0.1 mL.\<close>

theorem first_step_phase_witness:
  "0 < resolvedLoadingDurationSec refPropofol
   \<and> (\<exists>xs. eleveldProtocol refPropofol = Some xs \<and> xs \<noteq> [] \<and> phase (hd xs) = Loading)
   \<and> startCe maintInput = targetCe maintInput
   \<and> loadingDoseMg maintInput = None \<and> loadingDurationSec maintInput = None
   \<and> (\<exists>xs. eleveldProtocol maintInput = Some xs \<and> xs \<noteq> []
         \<and> resolvedLoadingDoseMg maintInput = 0 \<and> resolvedLoadingDurationSec maintInput = 0
         \<and> time (hd xs) = 10 \<and> phase (hd xs) = Maintenance)"
proof -
  have D: "0 < resolvedLoadingDurationSec refPropofol"
    using ref_bolus_duration by simp
  from ref_run_Some obtain xs where run: "eleveldProtocol refPropofol = Some xs" by blast
  from first_step_phase [OF run] D have 1: "xs \<noteq> [] \<and> phase (hd xs) = Loading" by blast
  have s: "startCe maintInput = targetCe maintInput"
    by (simp add: startCe_def maintInput_fields)
  from maint_run obtain ys where runm: "eleveldProtocol maintInput = Some ys"
    and rel: "list_all2 relStep ys maintASteps" by blast
  have "length ys = 2" using list_all2_lengthD [OF rel] by (simp add: maintASteps_def)
  then have ne: "ys \<noteq> []" by auto
  have p: "eleveldParameters maintInput = eleveldParameters refPropofol"
    by (rule refCovariates_parameters [OF refCovariates_inputs(4)])
  have r: "0 < remainingMg (maintenanceTick (eleveldParameters maintInput) maintInput
                (initialState maintInput))"
    unfolding p
    by (simp add: maintenanceTick_remainingMg initialState_simps infusionRateMgSec_def Let_def
        maintInput_fields interval_def maxRateMgSec_def startCe_def ref_simple)
  have iv: "Math_round (interval maintInput) = 10"
    by (simp add: interval_def maintInput_fields Math_round_def)
  from first_step_phase [OF runm] s ne r iv
  have 2: "resolvedLoadingDoseMg maintInput = 0 \<and> resolvedLoadingDurationSec maintInput = 0
         \<and> time (hd ys) = 10 \<and> phase (hd ys) = Maintenance"
    by (simp add: maintInput_fields)
  from D run 1 s runm ne 2 show ?thesis
    by (simp add: maintInput_fields)
qed

end
